theory Spec2Isabelle
  imports Main "HOL-Library.AList"
begin

section \<open>JavaScript strings\<close>

text \<open>
  A JavaScript string is a sequence of UTF-16 code units, and \<open>s.length\<close> counts code
  units.  Code units are modelled as natural numbers (below 65536 in every string the
  runtime can build); \<open>lit\<close> turns an ASCII literal of the source into its code units.
\<close>

type_synonym jsstring = "nat list"

definition lit :: "string \<Rightarrow> jsstring" where
  "lit s = map of_char s"

text \<open>\<open>xs.join(sep)\<close> on an array of strings.\<close>

fun join :: "jsstring \<Rightarrow> jsstring list \<Rightarrow> jsstring" where
  "join sep [] = []"
| "join sep [x] = x"
| "join sep (x # y # ys) = x @ sep @ join sep (y # ys)"

text \<open>Decimal rendering of a non-negative integer, and of an integer (\<open>String(n)\<close>).\<close>

fun digits10 :: "nat \<Rightarrow> jsstring" where
  "digits10 n = (if n < 10 then [48 + n] else digits10 (n div 10) @ [48 + n mod 10])"

declare digits10.simps [simp del]

definition num_str :: "int \<Rightarrow> jsstring" where
  "num_str i = (if i < 0 then 45 # digits10 (nat (- i)) else digits10 (nat i))"

text \<open>\<open>s.startsWith(p)\<close> and \<open>s.includes(p)\<close>.\<close>

fun startsWith :: "jsstring \<Rightarrow> jsstring \<Rightarrow> bool" where
  "startsWith s [] = True"
| "startsWith [] (p # ps) = False"
| "startsWith (c # cs) (p # ps) = (c = p \<and> startsWith cs ps)"

fun includes_str :: "jsstring \<Rightarrow> jsstring \<Rightarrow> bool" where
  "includes_str [] p = (p = [])"
| "includes_str (c # cs) p = (startsWith (c # cs) p \<or> includes_str cs p)"


section \<open>Tool registry (tools/base.ts)\<close>

text \<open>
  What a \<open>try\<close> block can catch: a \<open>z.ZodError\<close> with its issues and its message (Zod
  renders the issues as JSON there), any other \<open>Error\<close> with its message, or a thrown value
  that is no \<open>Error\<close>, kept as the string \<open>String(err)\<close> gives for it.
\<close>

datatype path_elem = Key jsstring | Idx nat

record zod_issue =
  path :: "path_elem list"
  message :: jsstring

datatype thrown = ZodError "zod_issue list" jsstring | JsError jsstring | OtherThrown jsstring

definition instanceof_ZodError :: "thrown \<Rightarrow> bool" where
  "instanceof_ZodError err = (case err of ZodError issues m \<Rightarrow> True | _ \<Rightarrow> False)"

text \<open>
  The \<open>Tool\<close> interface.  \<open>parameters\<close> is the Zod schema, modelled by its \<open>parse\<close>:
  it returns the validated parameters or throws.  \<open>execute\<close> runs the tool in a world
  \<open>'w\<close> (file system, network, ...) and returns the result string or throws, together
  with the world it leaves behind.
\<close>

record ('p, 'w) tool =
  name :: jsstring
  description :: jsstring
  parameters :: "'p \<Rightarrow> thrown + 'p"
  execute :: "'p \<Rightarrow> 'w \<Rightarrow> (thrown + jsstring) \<times> 'w"

text \<open>
  \<open>ToolRegistry.tools\<close> is a JavaScript \<open>Map\<close>: keys in insertion order, \<open>set\<close> on a
  present key replaces the value in place.
\<close>

type_synonym ('p, 'w) registry = "(jsstring \<times> ('p, 'w) tool) list"

definition new_registry :: "('p, 'w) registry" where
  "new_registry = []"

definition register :: "('p, 'w) tool \<Rightarrow> ('p, 'w) registry \<Rightarrow> ('p, 'w) registry" where
  "register t r = AList.update (name t) t r"

definition unregister :: "jsstring \<Rightarrow> ('p, 'w) registry \<Rightarrow> ('p, 'w) registry" where
  "unregister n r = AList.delete n r"

definition get :: "('p, 'w) registry \<Rightarrow> jsstring \<Rightarrow> ('p, 'w) tool option" where
  "get r n = map_of r n"

definition has :: "('p, 'w) registry \<Rightarrow> jsstring \<Rightarrow> bool" where
  "has r n = (map_of r n \<noteq> None)"

definition toolNames :: "('p, 'w) registry \<Rightarrow> jsstring list" where
  "toolNames r = map fst r"

definition size_registry :: "('p, 'w) registry \<Rightarrow> nat" where
  "size_registry r = length r"

text \<open>The registries a program can build: from the empty one by \<open>register\<close> and \<open>unregister\<close>.\<close>

inductive reachable :: "('p, 'w) registry \<Rightarrow> bool" where
  reachable_new: "reachable new_registry"
| reachable_register: "reachable r \<Longrightarrow> reachable (register t r)"
| reachable_unregister: "reachable r \<Longrightarrow> reachable (unregister n r)"

text \<open>The \<open>catch\<close> block of \<open>ToolRegistry.execute\<close>.\<close>

definition path_elem_str :: "path_elem \<Rightarrow> jsstring" where
  "path_elem_str e = (case e of Key k \<Rightarrow> k | Idx i \<Rightarrow> digits10 i)"

definition issue_str :: "zod_issue \<Rightarrow> jsstring" where
  "issue_str e = join (lit ''.'') (map path_elem_str (path e)) @ lit '': '' @ message e"

definition thrown_message :: "thrown \<Rightarrow> jsstring" where
  "thrown_message err = (case err of ZodError issues m \<Rightarrow> m | JsError m \<Rightarrow> m | OtherThrown s \<Rightarrow> s)"

definition execute_catch :: "jsstring \<Rightarrow> thrown \<Rightarrow> jsstring" where
  "execute_catch n err =
     (case err of
        ZodError issues m \<Rightarrow> lit ''Invalid parameters: '' @ join (lit '', '') (map issue_str issues)
      | _ \<Rightarrow> lit ''Error executing '' @ n @ lit '': '' @ thrown_message err)"

definition registry_execute ::
  "('p, 'w) registry \<Rightarrow> jsstring \<Rightarrow> 'p \<Rightarrow> 'w \<Rightarrow> jsstring \<times> 'w" where
  "registry_execute r n params w =
     (case get r n of
        None \<Rightarrow> (lit ''Error: Tool '' @ [39] @ n @ [39] @ lit '' not found.'', w)
      | Some t \<Rightarrow>
          (case parameters t params of
             Inl err \<Rightarrow> (execute_catch n err, w)
           | Inr validated \<Rightarrow>
               (case execute t validated w of
                  (Inl err, w') \<Rightarrow> (execute_catch n err, w')
                | (Inr res, w') \<Rightarrow> (res, w'))))"

text \<open>
  Three tools for concrete runs: one that returns its argument, one whose \<open>execute\<close> throws
  an \<open>Error\<close>, and one whose \<open>execute\<close> throws a \<open>ZodError\<close> (\<open>MCPToolWrapper.execute\<close>, for
  one, does not catch what the client's call throws).
\<close>

definition echo_tool :: "jsstring \<Rightarrow> (jsstring, unit) tool" where
  "echo_tool descr =
     \<lparr>name = lit ''echo'', description = descr, parameters = Inr,
      execute = (\<lambda>p w. (Inr p, w))\<rparr>"

definition boom_tool :: "(jsstring, unit) tool" where
  "boom_tool =
     \<lparr>name = lit ''boom'', description = [], parameters = Inr,
      execute = (\<lambda>p w. (Inl (JsError (lit ''kaput'')), w))\<rparr>"

definition zod_tool :: "(jsstring, unit) tool" where
  "zod_tool =
     \<lparr>name = lit ''mcp_srv_x'', description = [], parameters = Inr,
      execute = (\<lambda>p w. (Inl (ZodError [\<lparr>path = [Key (lit ''content''), Idx 0], message = lit ''Required''\<rparr>] (lit ''[...]'')), w))\<rparr>"


section \<open>White space, case conversion and regular expressions of the runtime\<close>

text \<open>
  \<open>String.prototype.trim\<close> and the pattern \<open>\s\<close> use the same set: ECMAScript's WhiteSpace
  and LineTerminator code points.
\<close>

definition is_space :: "nat \<Rightarrow> bool" where
  "is_space c = (c \<in> {9, 10, 11, 12, 13, 32, 160, 0x1680, 0x2028, 0x2029, 0x202F, 0x205F, 0x3000, 0xFEFF}
                 \<or> (0x2000 \<le> c \<and> c \<le> 0x200A))"

definition is_line_terminator :: "nat \<Rightarrow> bool" where
  "is_line_terminator c = (c \<in> {10, 13, 0x2028, 0x2029})"

definition trim :: "jsstring \<Rightarrow> jsstring" where
  "trim s = rev (dropWhile is_space (rev (dropWhile is_space s)))"

text \<open>\<open>s.split(sep)\<close> for a one-unit separator: always at least one piece.\<close>

fun split_unit :: "nat \<Rightarrow> jsstring \<Rightarrow> jsstring list" where
  "split_unit sep [] = [[]]"
| "split_unit sep (c # cs) =
     (if c = sep then [] # split_unit sep cs
      else (case split_unit sep cs of [] \<Rightarrow> [[c]] | l # ls \<Rightarrow> (c # l) # ls))"

text \<open>
  \<open>String.prototype.toLowerCase\<close>, code unit by code unit.  It is exact on U+0000..U+00FF,
  on U+0130 (capital I with dot above, which becomes the two units \<open>i\<close>, U+0307) and on
  U+212A (the Kelvin sign, which becomes the ASCII letter \<open>k\<close>): these two are the only
  code units outside ASCII whose lower-case form contains an ASCII unit.  Every other code
  unit from U+0100 up is left in place: its lower-case form is again outside ASCII and
  outside the white-space and line-terminator sets, which is all the patterns below can
  observe of it.
\<close>

definition lower1 :: "nat \<Rightarrow> nat" where
  "lower1 c =
     (if 65 \<le> c \<and> c \<le> 90 then c + 32
      else if (192 \<le> c \<and> c \<le> 214) \<or> (216 \<le> c \<and> c \<le> 222) then c + 32
      else if c = 0x212A then 0x6B
      else c)"

definition lower_unit :: "nat \<Rightarrow> jsstring" where
  "lower_unit c = (if c = 0x130 then [0x69, 0x307] else [lower1 c])"

definition toLowerCase :: "jsstring \<Rightarrow> jsstring" where
  "toLowerCase s = concat (map lower_unit s)"

text \<open>
  Regular expressions without the \<open>u\<close> flag, as far as the source uses them: literals,
  \<open>\s\<close>, \<open>.\<close>, character sets, \<open>\b\<close>, sequence, alternation and a quantifier
  \<open>{min,max}\<close> on a one-character atom (\<open>+\<close> is \<open>{1,}\<close>, \<open>*\<close> is \<open>{0,}\<close>).
\<close>

datatype cclass = Ch nat | Space | AnyChar | OneOf "nat list"

datatype regex =
    Eps
  | Atom cclass
  | WordBoundary
  | Seq regex regex
  | Alt regex regex
  | Repeat cclass nat "nat option"

record regexp =
  body :: regex
  ignoreCase :: bool

text \<open>
  Canonicalize of the \<open>i\<close> flag (no \<open>u\<close> flag): the upper-case form, except that a code
  unit outside ASCII never becomes an ASCII one.  Only ASCII is folded here; the canonical
  form of a unit outside ASCII is another unit outside ASCII, and every literal of the
  patterns is ASCII.
\<close>

definition canonicalize :: "bool \<Rightarrow> nat \<Rightarrow> nat" where
  "canonicalize ic c = (if ic \<and> 97 \<le> c \<and> c \<le> 122 then c - 32 else c)"

definition is_word :: "nat \<Rightarrow> bool" where
  "is_word c = ((48 \<le> c \<and> c \<le> 57) \<or> (65 \<le> c \<and> c \<le> 90) \<or> c = 95 \<or> (97 \<le> c \<and> c \<le> 122))"

fun cmatch :: "bool \<Rightarrow> cclass \<Rightarrow> nat \<Rightarrow> bool" where
  "cmatch ic (Ch l) c = (canonicalize ic c = canonicalize ic l)"
| "cmatch ic Space c = is_space c"
| "cmatch ic AnyChar c = (\<not> is_line_terminator c)"
| "cmatch ic (OneOf ls) c = (canonicalize ic c \<in> set (map (canonicalize ic) ls))"

text \<open>
  A position of the matcher: the code unit before it (if any) and the input after it.
  \<open>ends\<close> lists the positions where a match of the expression that starts here can end, in
  the order backtracking tries them (a quantifier is greedy).
\<close>

type_synonym mpos = "nat option \<times> jsstring"

definition at_boundary :: "mpos \<Rightarrow> bool" where
  "at_boundary st =
     ((case fst st of None \<Rightarrow> False | Some c \<Rightarrow> is_word c)
      \<noteq> (case snd st of [] \<Rightarrow> False | c # cs \<Rightarrow> is_word c))"

fun runs :: "(nat \<Rightarrow> bool) \<Rightarrow> nat option \<Rightarrow> nat option \<Rightarrow> jsstring \<Rightarrow> mpos list" where
  "runs m mx p [] = [(p, [])]"
| "runs m mx p (c # cs) =
     (p, c # cs) #
     (if m c \<and> mx \<noteq> Some 0 then runs m (map_option (\<lambda>n. n - 1) mx) (Some c) cs else [])"

fun ends :: "bool \<Rightarrow> regex \<Rightarrow> mpos \<Rightarrow> mpos list" where
  "ends ic Eps st = [st]"
| "ends ic (Atom cl) st =
     (case snd st of [] \<Rightarrow> [] | c # cs \<Rightarrow> if cmatch ic cl c then [(Some c, cs)] else [])"
| "ends ic WordBoundary st = (if at_boundary st then [st] else [])"
| "ends ic (Seq a b) st = concat (map (ends ic b) (ends ic a st))"
| "ends ic (Alt a b) st = ends ic a st @ ends ic b st"
| "ends ic (Repeat cl mn mx) st = rev (drop mn (runs (cmatch ic cl) mx (fst st) (snd st)))"

fun starts :: "nat option \<Rightarrow> jsstring \<Rightarrow> mpos list" where
  "starts p [] = [(p, [])]"
| "starts p (c # cs) = (p, c # cs) # starts (Some c) cs"

text \<open>\<open>re.test(s)\<close> for an expression without the \<open>g\<close> and \<open>y\<close> flags.\<close>

definition regexp_test :: "regexp \<Rightarrow> jsstring \<Rightarrow> bool" where
  "regexp_test re s = list_ex (\<lambda>st. ends (ignoreCase re) (body re) st \<noteq> []) (starts None s)"

definition seqs :: "regex list \<Rightarrow> regex" where
  "seqs rs = foldr Seq rs Eps"

definition chars :: "string \<Rightarrow> regex" where
  "chars s = seqs (map (\<lambda>c. Atom (Ch (of_char c))) s)"


section \<open>The exec tool (tools/shell.ts)\<close>

definition DEFAULT_DENY_PATTERNS :: "regexp list" where
  "DEFAULT_DENY_PATTERNS =
    [\<lparr>body = seqs [WordBoundary, chars ''rm'', Repeat Space 1 None, chars ''-'',
                    Repeat (OneOf (lit ''rf'')) 1 (Some 2), WordBoundary], ignoreCase = False\<rparr>,
     \<lparr>body = seqs [WordBoundary, chars ''del'', Repeat Space 1 None, chars ''/'',
                    Atom (OneOf (lit ''fq'')), WordBoundary], ignoreCase = True\<rparr>,
     \<lparr>body = seqs [WordBoundary, chars ''rmdir'', Repeat Space 1 None, chars ''/s'',
                    WordBoundary], ignoreCase = True\<rparr>,
     \<lparr>body = seqs [WordBoundary, Alt (chars ''format'') (Alt (chars ''mkfs'') (chars ''diskpart'')),
                    WordBoundary], ignoreCase = True\<rparr>,
     \<lparr>body = seqs [WordBoundary, chars ''dd'', Repeat Space 1 None, chars ''if=''],
      ignoreCase = False\<rparr>,
     \<lparr>body = seqs [chars ''>'', Repeat Space 0 None, chars ''/dev/sd''], ignoreCase = False\<rparr>,
     \<lparr>body = seqs [WordBoundary, Alt (chars ''shutdown'') (Alt (chars ''reboot'') (chars ''poweroff'')),
                    WordBoundary], ignoreCase = False\<rparr>,
     \<lparr>body = seqs [chars '':()'', Repeat Space 0 None, chars ''{'', Repeat AnyChar 0 None,
                    chars ''};'', Repeat Space 0 None, chars '':''], ignoreCase = False\<rparr>]"

record exec_tool =
  timeout :: nat
  workingDir :: jsstring
  restrictToWorkspace :: bool
  denyPatterns :: "regexp list"

text \<open>The constructor's defaults, \<open>process.cwd()\<close> given.\<close>

definition new_exec_tool :: "jsstring \<Rightarrow> exec_tool" where
  "new_exec_tool cwd =
     \<lparr>timeout = 60, workingDir = cwd, restrictToWorkspace = False,
      denyPatterns = DEFAULT_DENY_PATTERNS\<rparr>"

definition guardCommand :: "exec_tool \<Rightarrow> jsstring \<Rightarrow> jsstring option" where
  "guardCommand tool command =
     (let lower = toLowerCase command in
      if list_ex (\<lambda>pattern. regexp_test pattern lower) (denyPatterns tool)
      then Some (lit ''Error: Command blocked by safety guard (dangerous pattern detected)'')
      else if restrictToWorkspace tool
              \<and> (includes_str command (lit ''../'') \<or> includes_str command (lit ''..'' @ [92]))
      then Some (lit ''Error: Command blocked by safety guard (path traversal detected)'')
      else None)"

text \<open>
  The shell is outside the program: \<open>Bun.spawn(["sh", "-c", command], {cwd, ...})\<close> under the
  kill timer either throws or ends with the two captured streams and an exit code.
\<close>

record proc_result =
  stdout :: jsstring
  stderr :: jsstring
  exitCode :: int

type_synonym shell = "jsstring \<Rightarrow> jsstring \<Rightarrow> nat \<Rightarrow> thrown + proc_result"

record exec_params =
  command :: jsstring
  working_dir :: "jsstring option"

text \<open>The text assembled from a finished process, before the length limit.\<close>

definition exec_output :: "proc_result \<Rightarrow> jsstring" where
  "exec_output pr =
     (let output = [];
          output = (if trim (stdout pr) \<noteq> [] then output @ stdout pr else output);
          output = (if trim (stderr pr) \<noteq> []
                    then output @ (if output \<noteq> [] then [10] else []) @ lit ''STDERR:'' @ [10] @ stderr pr
                    else output);
          output = (if trim output = []
                    then lit ''(no output, exit code '' @ num_str (exitCode pr) @ lit '')''
                    else output)
      in if exitCode pr \<noteq> 0 \<and> \<not> includes_str output (lit ''STDERR:'')
         then output @ [10] @ lit ''Exit code: '' @ num_str (exitCode pr)
         else output)"

definition exec_truncate :: "jsstring \<Rightarrow> jsstring" where
  "exec_truncate output =
     (if length output > 10000 then take 10000 output @ [10] @ lit ''... (truncated)'' else output)"

text \<open>
  \<open>ExecTool.execute\<close>: the result string, and the list of commands handed to the shell
  (with their working directory) during the call.
\<close>

definition exec_execute :: "exec_tool \<Rightarrow> shell \<Rightarrow> exec_params \<Rightarrow> jsstring \<times> (jsstring \<times> jsstring) list" where
  "exec_execute tool sh params =
     (case guardCommand tool (command params) of
        Some blocked \<Rightarrow> (blocked, [])
      | None \<Rightarrow>
          (let cwd = (case working_dir params of Some d \<Rightarrow> d | None \<Rightarrow> workingDir tool) in
           case sh (command params) cwd (timeout tool) of
             Inl err \<Rightarrow> (lit ''Error: '' @ thrown_message err, [(command params, cwd)])
           | Inr pr \<Rightarrow> (exec_truncate (exec_output pr), [(command params, cwd)])))"

text \<open>A shell for concrete runs: every command ends with the given result.\<close>

definition fixed_shell :: "proc_result \<Rightarrow> shell" where
  "fixed_shell pr cmd cwd t = Inr pr"


section \<open>Patterns whose matches survive lower-casing\<close>

text \<open>
  The guard tests the lower-cased command.  A code unit is plain when lower-casing maps
  it to one unit of the same word class: every code unit but U+0130 and U+212A.  A
  pattern is stable when its literals are ASCII and, unless it ignores case, not upper
  case: a match of a stable pattern in a text of plain units is still a match after
  lower-casing.
\<close>

definition plain_unit :: "nat \<Rightarrow> bool" where
  "plain_unit c = (c \<noteq> 0x130 \<and> c \<noteq> 0x212A)"

definition plain_pos :: "mpos \<Rightarrow> bool" where
  "plain_pos st = ((case fst st of None \<Rightarrow> True | Some c \<Rightarrow> plain_unit c) \<and> list_all plain_unit (snd st))"

definition lower_pos :: "mpos \<Rightarrow> mpos" where
  "lower_pos st = (map_option lower1 (fst st), map lower1 (snd st))"

definition stable_lit :: "bool \<Rightarrow> nat \<Rightarrow> bool" where
  "stable_lit ic l = (l < 128 \<and> (ic \<or> \<not> (65 \<le> l \<and> l \<le> 90)))"

fun stable_cls :: "bool \<Rightarrow> cclass \<Rightarrow> bool" where
  "stable_cls ic (Ch l) = stable_lit ic l"
| "stable_cls ic Space = True"
| "stable_cls ic AnyChar = True"
| "stable_cls ic (OneOf ls) = list_all (stable_lit ic) ls"

fun stable :: "bool \<Rightarrow> regex \<Rightarrow> bool" where
  "stable ic Eps = True"
| "stable ic (Atom cl) = stable_cls ic cl"
| "stable ic WordBoundary = True"
| "stable ic (Seq a b) = (stable ic a \<and> stable ic b)"
| "stable ic (Alt a b) = (stable ic a \<and> stable ic b)"
| "stable ic (Repeat cl mn mx) = stable_cls ic cl"


section \<open>Heartbeat service (heartbeat/service.ts)\<close>

definition HEARTBEAT_PROMPT :: jsstring where
  "HEARTBEAT_PROMPT =
     lit ''Read HEARTBEAT.md in your workspace (if it exists).'' @ [10]
     @ lit ''Follow any instructions or tasks listed there.'' @ [10]
     @ lit ''If nothing needs attention, reply with just: HEARTBEAT_OK''"

text \<open>The test \<open>/^[-*] \[[ x]\]/.test(trimmed)\<close>.\<close>

definition is_checkbox :: "jsstring \<Rightarrow> bool" where
  "is_checkbox t =
     (case t of
        a # b # c # d # e # rest \<Rightarrow> (a = 45 \<or> a = 42) \<and> b = 32 \<and> c = 91 \<and> (d = 32 \<or> d = 120) \<and> e = 93
      | _ \<Rightarrow> False)"

text \<open>The \<open>for\<close> loop of \<open>isHeartbeatEmpty\<close> over the lines still to be read.\<close>

fun heartbeat_lines_empty :: "jsstring list \<Rightarrow> bool" where
  "heartbeat_lines_empty [] = True"
| "heartbeat_lines_empty (line # rest) =
     (let trimmed = trim line in
      if trimmed = [] then heartbeat_lines_empty rest
      else if startsWith trimmed (lit ''#'') then heartbeat_lines_empty rest
      else if startsWith trimmed (lit ''<!--'') then heartbeat_lines_empty rest
      else if is_checkbox trimmed then False
      else if length trimmed > 0 then False
      else heartbeat_lines_empty rest)"

definition isHeartbeatEmpty :: "jsstring option \<Rightarrow> bool" where
  "isHeartbeatEmpty content =
     (case content of
        None \<Rightarrow> True
      | Some c \<Rightarrow> if c = [] then True else heartbeat_lines_empty (split_unit 10 c))"

text \<open>
  The service: \<open>onHeartbeat\<close> is the handler (it returns the agent's reply or throws),
  \<open>timer\<close> says whether a next tick is scheduled.
\<close>

record heartbeat_service =
  intervalS :: nat
  hb_enabled :: bool
  running :: bool
  timer :: bool
  onHeartbeat :: "(jsstring \<Rightarrow> thrown + jsstring) option"

definition scheduleNext :: "heartbeat_service \<Rightarrow> heartbeat_service" where
  "scheduleNext svc = (if \<not> running svc then svc else svc\<lparr>timer := True\<rparr>)"

text \<open>
  \<open>readHeartbeatFile\<close>: the file is absent (\<open>None\<close>), or reading it throws, or it has a
  content.
\<close>

definition readHeartbeatFile :: "(thrown + jsstring) option \<Rightarrow> jsstring option" where
  "readHeartbeatFile file =
     (case file of None \<Rightarrow> None | Some (Inl err) \<Rightarrow> None | Some (Inr c) \<Rightarrow> Some c)"

text \<open>
  \<open>tick\<close>: the prompts the handler was invoked with during the tick, and the service
  afterwards.  What the handler returns or throws is only logged.
\<close>

definition tick :: "heartbeat_service \<Rightarrow> (thrown + jsstring) option \<Rightarrow> jsstring list \<times> heartbeat_service" where
  "tick svc file =
     (if \<not> running svc then ([], svc)
      else
        let content = readHeartbeatFile file in
        if isHeartbeatEmpty content then ([], scheduleNext svc)
        else (case onHeartbeat svc of
                None \<Rightarrow> ([], scheduleNext svc)
              | Some handler \<Rightarrow> ([HEARTBEAT_PROMPT], scheduleNext svc)))"

text \<open>
  The words of the claim as amended, on the lines of the file (the pieces between line
  feeds): a line is blank when all of it is white space, and it is a header, a comment or
  a checkbox line by what follows its leading white space.
\<close>

definition blank_line :: "jsstring \<Rightarrow> bool" where
  "blank_line l = list_all is_space l"

definition header_line :: "jsstring \<Rightarrow> bool" where
  "header_line l = startsWith (dropWhile is_space l) (lit ''#'')"

definition comment_line :: "jsstring \<Rightarrow> bool" where
  "comment_line l = startsWith (dropWhile is_space l) (lit ''<!--'')"

definition checkbox_line :: "jsstring \<Rightarrow> bool" where
  "checkbox_line l =
     (startsWith (dropWhile is_space l) (lit ''- [ ]'') \<or> startsWith (dropWhile is_space l) (lit ''- [x]''))"

text \<open>A running service with a handler, for concrete runs.\<close>

definition demo_heartbeat :: heartbeat_service where
  "demo_heartbeat =
     \<lparr>intervalS = 1800, hb_enabled = True, running = True, timer = False,
      onHeartbeat = Some (\<lambda>prompt. Inr (lit ''HEARTBEAT_OK''))\<rparr>"


section \<open>Cron service (cron/types.ts, cron/service.ts)\<close>

text \<open>
  Times are milliseconds since the epoch; a \<open>number\<close> that holds one is modelled as an
  integer, \<open>null\<close> as \<open>None\<close>.
\<close>

datatype schedule_kind = At | Every | Cron

record cron_schedule =
  kind :: schedule_kind
  atMs :: "int option"
  everyMs :: "int option"
  expr :: "jsstring option"
  tz :: "jsstring option"

datatype payload_kind = SystemEvent | AgentTurn

record cron_payload =
  payload_kind :: payload_kind
  payload_message :: jsstring
  deliver :: bool
  channel :: "jsstring option"
  to :: "jsstring option"

datatype job_status = StatusOk | StatusError | StatusSkipped

record cron_job_state =
  nextRunAtMs :: "int option"
  lastRunAtMs :: "int option"
  lastStatus :: "job_status option"
  lastError :: "jsstring option"

record cron_job =
  job_id :: jsstring
  job_name :: jsstring
  enabled :: bool
  schedule :: cron_schedule
  payload :: cron_payload
  state :: cron_job_state
  createdAtMs :: int
  updatedAtMs :: int
  deleteAfterRun :: bool

text \<open>
  The package \<open>cron-parser\<close> is outside the program:
  \<open>parseExpression(expr, {tz}).next().getTime()\<close> gives the next instant that matches the
  expression after the current time of the wall clock (third argument), or throws when
  the expression does not parse.
\<close>

type_synonym cron_parser = "jsstring \<Rightarrow> jsstring option \<Rightarrow> int \<Rightarrow> thrown + int"

definition computeNextRun :: "cron_parser \<Rightarrow> int \<Rightarrow> cron_schedule \<Rightarrow> int \<Rightarrow> int option" where
  "computeNextRun parser wall sched now =
     (if kind sched = At then
        (case atMs sched of
           Some a \<Rightarrow> if a \<noteq> 0 \<and> a > now then Some a else None
         | None \<Rightarrow> None)
      else if kind sched = Every then
        (case everyMs sched of
           Some e \<Rightarrow> if e \<noteq> 0 \<and> e > 0 then Some (now + e) else None
         | None \<Rightarrow> None)
      else if kind sched = Cron then
        (case expr sched of
           Some x \<Rightarrow>
             if x \<noteq> [] then
               (case parser x (tz sched) wall of
                  Inr t \<Rightarrow> Some t
                | Inl err \<Rightarrow> None)
             else None
         | None \<Rightarrow> None)
      else None)"

text \<open>
  Jobs are objects shared by reference between \<open>store.jobs\<close> and the callers: the heap
  maps a reference to the object, the store lists references.
\<close>

record cron_store =
  version :: int
  jobs :: "nat list"

record cron_service =
  store :: "cron_store option"
  heap :: "nat \<Rightarrow> cron_job"
  next_ref :: nat
  clock :: int
  cron_running :: bool

text \<open>
  \<open>onJob\<close> runs the job in the agent: it may change the service (cron tool calls, time
  passing) and either returns or throws a value \<open>e\<close>, kept as \<open>String(e)\<close>.
\<close>

type_synonym on_job = "nat \<Rightarrow> cron_service \<Rightarrow> jsstring option \<times> cron_service"

definition update_job :: "nat \<Rightarrow> (cron_job \<Rightarrow> cron_job) \<Rightarrow> cron_service \<Rightarrow> cron_service" where
  "update_job r f s = s\<lparr>heap := (heap s)(r := f (heap s r))\<rparr>"

text \<open>\<open>executeJob\<close> in its three steps: the handler call inside \<open>try\<close>, the bookkeeping of
  the result, and the part under the comment \<open>Handle one-shot jobs\<close>.\<close>

definition call_handler :: "on_job option \<Rightarrow> nat \<Rightarrow> cron_service \<Rightarrow> jsstring option \<times> cron_service" where
  "call_handler onJob r s = (case onJob of None \<Rightarrow> (None, s) | Some handler \<Rightarrow> handler r s)"

definition record_result :: "nat \<Rightarrow> int \<Rightarrow> jsstring option \<Rightarrow> cron_service \<Rightarrow> cron_service" where
  "record_result r startMs thrown_by_job s =
     (let s = (case thrown_by_job of
                 None \<Rightarrow> update_job r (\<lambda>j. j\<lparr>state := (state j)\<lparr>lastStatus := Some StatusOk, lastError := None\<rparr>\<rparr>) s
               | Some e \<Rightarrow> update_job r (\<lambda>j. j\<lparr>state := (state j)\<lparr>lastStatus := Some StatusError, lastError := Some e\<rparr>\<rparr>) s);
          s = update_job r (\<lambda>j. j\<lparr>state := (state j)\<lparr>lastRunAtMs := Some startMs\<rparr>\<rparr>) s
      in update_job r (\<lambda>j. j\<lparr>updatedAtMs := clock s\<rparr>) s)"

definition handle_one_shot :: "cron_parser \<Rightarrow> nat \<Rightarrow> cron_service \<Rightarrow> thrown + cron_service" where
  "handle_one_shot parser r s =
     (if kind (schedule (heap s r)) = At then
        (if deleteAfterRun (heap s r) then
           (case store s of
              None \<Rightarrow> Inl (JsError (lit ''null is not an object''))
            | Some st \<Rightarrow>
                Inr (s\<lparr>store := Some (st\<lparr>jobs := filter (\<lambda>j. job_id (heap s j) \<noteq> job_id (heap s r)) (jobs st)\<rparr>)\<rparr>))
         else
           Inr (update_job r (\<lambda>j. j\<lparr>state := (state j)\<lparr>nextRunAtMs := None\<rparr>\<rparr>)
                 (update_job r (\<lambda>j. j\<lparr>enabled := False\<rparr>) s)))
      else
        Inr (update_job r
              (\<lambda>j. j\<lparr>state := (state j)\<lparr>nextRunAtMs := computeNextRun parser (clock s) (schedule j) (clock s)\<rparr>\<rparr>) s))"

definition executeJob :: "on_job option \<Rightarrow> cron_parser \<Rightarrow> nat \<Rightarrow> cron_service \<Rightarrow> thrown + cron_service" where
  "executeJob onJob parser r s =
     (let startMs = clock s;
          (thrown_by_job, s) = call_handler onJob r s
      in handle_one_shot parser r (record_result r startMs thrown_by_job s))"

text \<open>
  \<open>loadStore\<close>: the cached store, or the one read from the file: \<open>disk\<close> is what
  \<open>CronStoreSchema.parse\<close> makes of the file (of \<open>{}\<close> when the file is missing or
  malformed), its jobs new objects.
\<close>

fun alloc_jobs :: "cron_job list \<Rightarrow> cron_service \<Rightarrow> nat list \<times> cron_service" where
  "alloc_jobs [] s = ([], s)"
| "alloc_jobs (j # js) s =
     (let r = next_ref s;
          (rs, s') = alloc_jobs js (s\<lparr>heap := (heap s)(r := j), next_ref := Suc r\<rparr>)
      in (r # rs, s'))"

definition loadStore :: "int \<times> cron_job list \<Rightarrow> cron_service \<Rightarrow> cron_store \<times> cron_service" where
  "loadStore disk s =
     (case store s of
        Some st \<Rightarrow> (st, s)
      | None \<Rightarrow>
          (let (rs, s') = alloc_jobs (snd disk) s;
               st = \<lparr>version = fst disk, jobs = rs\<rparr>
           in (st, s'\<lparr>store := Some st\<rparr>)))"

text \<open>
  \<open>Array.prototype.sort\<close> is stable; the comparator of \<open>listJobs\<close> orders by
  \<open>nextRunAtMs ?? Infinity\<close> (two missing times compare as equal).
\<close>

definition runs_before :: "int option \<Rightarrow> int option \<Rightarrow> bool" where
  "runs_before a b = (case a of None \<Rightarrow> False | Some x \<Rightarrow> (case b of None \<Rightarrow> True | Some y \<Rightarrow> x < y))"

fun insert_sorted :: "('a \<Rightarrow> int option) \<Rightarrow> 'a \<Rightarrow> 'a list \<Rightarrow> 'a list" where
  "insert_sorted key x [] = [x]"
| "insert_sorted key x (y # ys) =
     (if runs_before (key y) (key x) then y # insert_sorted key x ys else x # y # ys)"

fun sort_jobs :: "('a \<Rightarrow> int option) \<Rightarrow> 'a list \<Rightarrow> 'a list" where
  "sort_jobs key [] = []"
| "sort_jobs key (x # xs) = insert_sorted key x (sort_jobs key xs)"

text \<open>
  \<open>listJobs\<close>: the references returned, and the service afterwards (with
  \<open>includeDisabled\<close> the array sorted in place is \<open>store.jobs\<close> itself).
\<close>

definition listJobs :: "int \<times> cron_job list \<Rightarrow> bool \<Rightarrow> cron_service \<Rightarrow> nat list \<times> cron_service" where
  "listJobs disk includeDisabled s =
     (let (st, s) = loadStore disk s;
          key = (\<lambda>r. nextRunAtMs (state (heap s r)))
      in if includeDisabled
         then (sort_jobs key (jobs st), s\<lparr>store := Some (st\<lparr>jobs := sort_jobs key (jobs st)\<rparr>)\<rparr>)
         else (sort_jobs key (filter (\<lambda>r. enabled (heap s r)) (jobs st)), s))"

text \<open>
  For concrete runs: a parser that is not installed, one that knows the expression of every
  minute only, and a service with two one-shot jobs.
\<close>

definition missing_parser :: cron_parser where
  "missing_parser e z wall = Inl (JsError (lit ''Cannot find module''))"


definition demo_job :: "jsstring \<Rightarrow> bool \<Rightarrow> cron_job" where
  "demo_job i del =
     \<lparr>job_id = i, job_name = lit ''remind'', enabled = True,
      schedule = \<lparr>kind = At, atMs = Some 5000, everyMs = None, expr = None, tz = None\<rparr>,
      payload = \<lparr>payload_kind = AgentTurn, payload_message = lit ''hi'', deliver = True,
                 channel = None, to = None\<rparr>,
      state = \<lparr>nextRunAtMs = Some 5000, lastRunAtMs = None, lastStatus = None, lastError = None\<rparr>,
      createdAtMs = 1000, updatedAtMs = 1000, deleteAfterRun = del\<rparr>"

definition demo_cron :: cron_service where
  "demo_cron =
     \<lparr>store = Some \<lparr>version = 1, jobs = [0, 2]\<rparr>,
      heap = (\<lambda>r. if r = 0 then demo_job (lit ''aaaa0000'') True else demo_job (lit ''bbbb1111'') False),
      next_ref = 3, clock = 6000, cron_running = True\<rparr>"


section \<open>LLM messages and the two tool loops (providers/base.ts, agent/loop.ts, agent/subagent.ts)\<close>

record 'p tool_call_request =
  call_id :: jsstring
  call_name :: jsstring
  arguments :: 'p

record 'p llm_response =
  resp_content :: "jsstring option"
  toolCalls :: "'p tool_call_request list"
  reasoningContent :: "jsstring option"

definition hasToolCalls :: "'p llm_response \<Rightarrow> bool" where
  "hasToolCalls response = (length (toolCalls response) > 0)"

text \<open>
  A chat message as the loops build it; a field that the object literal does not set is
  \<open>None\<close>.  \<open>tool_calls\<close> holds, for each call, its id, the tool's name and the JSON text
  of the arguments.
\<close>

datatype role = System | User | Assistant | ToolRole

record chat_message =
  role :: role
  content :: "jsstring option"
  tool_calls :: "(jsstring \<times> jsstring \<times> jsstring) list option"
  tool_call_id :: "jsstring option"
  tool_name :: "jsstring option"
  reasoning_content :: "jsstring option"

definition plain_message :: "role \<Rightarrow> jsstring \<Rightarrow> chat_message" where
  "plain_message r c =
     \<lparr>role = r, content = Some c, tool_calls = None, tool_call_id = None, tool_name = None,
      reasoning_content = None\<rparr>"

text \<open>
  The provider is outside the program: \<open>chat\<close> answers a message list or throws, in the
  same world the tools act on.  \<open>JSON.stringify\<close> of the arguments is a parameter.
\<close>

type_synonym ('p, 'w) provider = "chat_message list \<Rightarrow> 'w \<Rightarrow> (thrown + 'p llm_response) \<times> 'w"

definition toolCallDicts :: "('p \<Rightarrow> jsstring) \<Rightarrow> 'p llm_response \<Rightarrow> (jsstring \<times> jsstring \<times> jsstring) list" where
  "toolCallDicts stringify response =
     map (\<lambda>tc. (call_id tc, call_name tc, stringify (arguments tc))) (toolCalls response)"

text \<open>The \<open>for\<close> loop of the sub-agent over the tool calls of one response.\<close>

fun subagent_tool_calls ::
  "('p, 'w) registry \<Rightarrow> 'p tool_call_request list \<Rightarrow> chat_message list \<Rightarrow> 'w \<Rightarrow> chat_message list \<times> 'w" where
  "subagent_tool_calls tools [] messages w = (messages, w)"
| "subagent_tool_calls tools (tc # tcs) messages w =
     (let (result, w) = registry_execute tools (call_name tc) (arguments tc) w
      in subagent_tool_calls tools tcs
           (messages @ [\<lparr>role = ToolRole, content = Some result, tool_calls = None,
                         tool_call_id = Some (call_id tc), tool_name = Some (call_name tc),
                         reasoning_content = None\<rparr>]) w)"

text \<open>
  The \<open>while\<close> loop of \<open>runSubagent\<close> (\<open>maxIterations = 15\<close>): the final result (null when
  the ceiling is hit) with the message list at the end, or what \<open>provider.chat\<close> threw.
\<close>

function subagent_loop ::
  "('p, 'w) provider \<Rightarrow> ('p, 'w) registry \<Rightarrow> ('p \<Rightarrow> jsstring) \<Rightarrow> nat \<Rightarrow> chat_message list \<Rightarrow> 'w
     \<Rightarrow> (thrown + jsstring option \<times> chat_message list) \<times> 'w" where
  "subagent_loop chat tools stringify iteration messages w =
     (if iteration < 15 then
        (case chat messages w of
           (Inl err, w) \<Rightarrow> (Inl err, w)
         | (Inr response, w) \<Rightarrow>
             if hasToolCalls response then
               (let messages = messages @
                      [\<lparr>role = Assistant,
                        content = Some (case resp_content response of None \<Rightarrow> [] | Some c \<Rightarrow> c),
                        tool_calls = Some (toolCallDicts stringify response),
                        tool_call_id = None, tool_name = None, reasoning_content = None\<rparr>];
                    (messages, w) = subagent_tool_calls tools (toolCalls response) messages w
                in subagent_loop chat tools stringify (iteration + 1) messages w)
             else (Inr (resp_content response, messages), w))
      else (Inr (None, messages), w))"
  by pat_completeness auto
termination
  by (relation "measure (\<lambda>(chat, tools, stringify, iteration, messages, w). 15 - iteration)") auto

declare subagent_loop.simps [simp del]

text \<open>
  \<open>runSubagent\<close> after the registry is built: the status and the result text it hands to
  \<open>announceResult\<close>, and the message list the loop ended with.
\<close>

datatype announce_status = Done | Failed

definition runSubagent ::
  "('p, 'w) provider \<Rightarrow> ('p, 'w) registry \<Rightarrow> ('p \<Rightarrow> jsstring) \<Rightarrow> jsstring \<Rightarrow> jsstring \<Rightarrow> 'w
     \<Rightarrow> (announce_status \<times> jsstring \<times> chat_message list) \<times> 'w" where
  "runSubagent chat tools stringify systemPrompt task w =
     (let messages = [plain_message System systemPrompt, plain_message User task] in
      case subagent_loop chat tools stringify 0 messages w of
        (Inl err, w) \<Rightarrow> ((Failed, lit ''Error: '' @ thrown_message err, messages), w)
      | (Inr (finalResult, messages), w) \<Rightarrow>
          ((Done,
            (case finalResult of
               None \<Rightarrow> lit ''Task completed but no final response was generated.''
             | Some c \<Rightarrow> c),
            messages), w))"

text \<open>
  The main agent's loop, \<open>AgentLoop.runAgentLoop\<close>, with \<open>ContextBuilder.addAssistantMessage\<close>
  and \<open>addToolResult\<close>: the final content, the tools used and the message list at the end.
\<close>

definition addAssistantMessage ::
  "chat_message list \<Rightarrow> jsstring option \<Rightarrow> (jsstring \<times> jsstring \<times> jsstring) list \<Rightarrow> jsstring option
     \<Rightarrow> chat_message list" where
  "addAssistantMessage messages c calls reasoning =
     messages @
       [\<lparr>role = Assistant, content = c,
         tool_calls = (if length calls > 0 then Some calls else None),
         tool_call_id = None, tool_name = None,
         reasoning_content = (case reasoning of None \<Rightarrow> None | Some t \<Rightarrow> if t = [] then None else Some t)\<rparr>]"

definition addToolResult :: "chat_message list \<Rightarrow> jsstring \<Rightarrow> jsstring \<Rightarrow> jsstring \<Rightarrow> chat_message list" where
  "addToolResult messages toolCallId toolName result =
     messages @
       [\<lparr>role = ToolRole, content = Some result, tool_calls = None, tool_call_id = Some toolCallId,
         tool_name = None, reasoning_content = None\<rparr>]"

fun agent_tool_calls ::
  "('p, 'w) registry \<Rightarrow> 'p tool_call_request list \<Rightarrow> chat_message list \<Rightarrow> jsstring list \<Rightarrow> 'w
     \<Rightarrow> chat_message list \<times> jsstring list \<times> 'w" where
  "agent_tool_calls tools [] messages toolsUsed w = (messages, toolsUsed, w)"
| "agent_tool_calls tools (tc # tcs) messages toolsUsed w =
     (let toolsUsed = toolsUsed @ [call_name tc];
          (result, w) = registry_execute tools (call_name tc) (arguments tc) w
      in agent_tool_calls tools tcs (addToolResult messages (call_id tc) (call_name tc) result) toolsUsed w)"

function runAgentLoop ::
  "('p, 'w) provider \<Rightarrow> ('p, 'w) registry \<Rightarrow> ('p \<Rightarrow> jsstring) \<Rightarrow> nat \<Rightarrow> nat \<Rightarrow> chat_message list
     \<Rightarrow> jsstring list \<Rightarrow> 'w \<Rightarrow> (thrown + jsstring option \<times> jsstring list \<times> chat_message list) \<times> 'w" where
  "runAgentLoop chat tools stringify maxIterations iteration messages toolsUsed w =
     (if iteration < maxIterations then
        (case chat messages w of
           (Inl err, w) \<Rightarrow> (Inl err, w)
         | (Inr response, w) \<Rightarrow>
             if hasToolCalls response then
               (let messages = addAssistantMessage messages (resp_content response)
                                 (toolCallDicts stringify response) (reasoningContent response);
                    (messages, toolsUsed, w) = agent_tool_calls tools (toolCalls response) messages toolsUsed w;
                    messages = messages @
                      [plain_message User (lit ''Reflect on the results and decide next steps.'')]
                in runAgentLoop chat tools stringify maxIterations (iteration + 1) messages toolsUsed w)
             else (Inr (resp_content response, toolsUsed, messages), w))
      else (Inr (None, toolsUsed, messages), w))"
  by pat_completeness auto
termination
  by (relation "measure (\<lambda>(chat, tools, stringify, maxIterations, iteration, messages, toolsUsed, w).
        maxIterations - iteration)") auto

declare runAgentLoop.simps [simp del]

text \<open>
  A provider for concrete runs: it asks for one call of \<open>echo\<close> on the first turn (two
  messages in the list) and gives its final answer on any later turn.
\<close>

definition scripted_provider :: "(jsstring, unit) provider" where
  "scripted_provider messages w =
     (if length messages = 2
      then (Inr \<lparr>resp_content = None,
                 toolCalls = [\<lparr>call_id = lit ''call_1'', call_name = lit ''echo'', arguments = lit ''hi''\<rparr>],
                 reasoningContent = None\<rparr>, w)
      else (Inr \<lparr>resp_content = Some (lit ''done''), toolCalls = [], reasoningContent = None\<rparr>, w))"

text \<open>The arguments of the concrete runs are JSON texts already.\<close>

definition json_text :: "jsstring \<Rightarrow> jsstring" where
  "json_text a = a"


section \<open>File system tools (tools/filesystem.ts)\<close>

text \<open>
  \<open>s.split(sep)\<close> for a separator string: the pieces between the occurrences of \<open>sep\<close>
  found from left to right, each search starting after the previous occurrence; the empty
  separator cuts between all code units (and the empty string into no piece at all).
\<close>

fun split_go :: "jsstring \<Rightarrow> jsstring \<Rightarrow> jsstring \<Rightarrow> jsstring list" where
  "split_go sep acc [] = [rev acc]"
| "split_go sep acc (c # cs) =
     (if startsWith (c # cs) sep
      then rev acc # split_go sep [] (drop (length sep - 1) cs)
      else split_go sep (c # acc) cs)"

definition split_str :: "jsstring \<Rightarrow> jsstring \<Rightarrow> jsstring list" where
  "split_str s sep = (if sep = [] then map (\<lambda>c. [c]) s else split_go sep [] s)"

text \<open>
  \<open>s.replace(pattern, replacement)\<close> for a pattern string: the first occurrence is
  replaced by the expansion of the replacement text, in which \<open>$$\<close> stands for \<open>$\<close>,
  \<open>$&\<close> for the matched text, \<open>$`\<close> for the text before the match and \<open>$'\<close> for the text
  after it (there are no capture groups, so \<open>$1\<close> and the like stand for themselves).
\<close>

fun split_first :: "jsstring \<Rightarrow> jsstring \<Rightarrow> (jsstring \<times> jsstring) option" where
  "split_first [] p = (if p = [] then Some ([], []) else None)"
| "split_first (c # cs) p =
     (if startsWith (c # cs) p then Some ([], drop (length p) (c # cs))
      else (case split_first cs p of None \<Rightarrow> None | Some (pre, post) \<Rightarrow> Some (c # pre, post)))"

fun get_substitution :: "jsstring \<Rightarrow> jsstring \<Rightarrow> jsstring \<Rightarrow> jsstring \<Rightarrow> jsstring" where
  "get_substitution matched pre post [] = []"
| "get_substitution matched pre post [c] = [c]"
| "get_substitution matched pre post (c # d # rest) =
     (if c = 36 \<and> d = 36 then 36 # get_substitution matched pre post rest
      else if c = 36 \<and> d = 38 then matched @ get_substitution matched pre post rest
      else if c = 36 \<and> d = 96 then pre @ get_substitution matched pre post rest
      else if c = 36 \<and> d = 39 then post @ get_substitution matched pre post rest
      else c # get_substitution matched pre post (d # rest))"

definition replace_str :: "jsstring \<Rightarrow> jsstring \<Rightarrow> jsstring \<Rightarrow> jsstring" where
  "replace_str s pattern replacement =
     (case split_first s pattern of
        None \<Rightarrow> s
      | Some (pre, post) \<Rightarrow> pre @ get_substitution pattern pre post replacement @ post)"

text \<open>
  The encoding \<open>writeFileSync(path, text, "utf-8")\<close> puts on disk: one to three bytes for a
  code unit, four for a surrogate pair, and the three bytes of U+FFFD for a lone
  surrogate.
\<close>

fun utf8_encode :: "jsstring \<Rightarrow> nat list" where
  "utf8_encode [] = []"
| "utf8_encode [c] =
     (if c < 0x80 then [c]
      else if c < 0x800 then [0xC0 + c div 64, 0x80 + c mod 64]
      else if 0xD800 \<le> c \<and> c < 0xE000 then [0xEF, 0xBF, 0xBD]
      else [0xE0 + c div 4096, 0x80 + (c div 64) mod 64, 0x80 + c mod 64])"
| "utf8_encode (c # d # cs) =
     (if c < 0x80 then c # utf8_encode (d # cs)
      else if c < 0x800 then [0xC0 + c div 64, 0x80 + c mod 64] @ utf8_encode (d # cs)
      else if 0xD800 \<le> c \<and> c < 0xDC00 \<and> 0xDC00 \<le> d \<and> d < 0xE000 then
        (let cp = 0x10000 + (c - 0xD800) * 0x400 + (d - 0xDC00)
         in [0xF0 + cp div 262144, 0x80 + (cp div 4096) mod 64, 0x80 + (cp div 64) mod 64, 0x80 + cp mod 64]
            @ utf8_encode cs)
      else if 0xD800 \<le> c \<and> c < 0xE000 then [0xEF, 0xBF, 0xBD] @ utf8_encode (d # cs)
      else [0xE0 + c div 4096, 0x80 + (c div 64) mod 64, 0x80 + c mod 64] @ utf8_encode (d # cs))"

text \<open>
  The file system, as far as the tools touch it: the regular files with their text (the
  file holds its UTF-8 encoding) and the directories, both under absolute normalised
  paths.  \<open>path.resolve\<close> is a parameter of the tools: it depends on the working directory
  of the process.
\<close>

record filesystem =
  files :: "jsstring \<rightharpoonup> jsstring"
  dirs :: "jsstring set"

definition file_bytes :: "filesystem \<Rightarrow> jsstring \<Rightarrow> nat list option" where
  "file_bytes fs p = map_option utf8_encode (files fs p)"

definition path_parts :: "jsstring \<Rightarrow> jsstring list" where
  "path_parts p = filter (\<lambda>part. part \<noteq> []) (split_unit 47 p)"

definition path_of_parts :: "jsstring list \<Rightarrow> jsstring" where
  "path_of_parts parts = 47 # join [47] parts"

definition dirname :: "jsstring \<Rightarrow> jsstring" where
  "dirname p = path_of_parts (butlast (path_parts p))"

definition ancestors :: "jsstring \<Rightarrow> jsstring list" where
  "ancestors p = map (\<lambda>k. path_of_parts (take k (path_parts p))) [0..<Suc (length (path_parts p))]"

definition existsSync :: "filesystem \<Rightarrow> jsstring \<Rightarrow> bool" where
  "existsSync fs p = (files fs p \<noteq> None \<or> p \<in> dirs fs)"

definition readFileSync :: "filesystem \<Rightarrow> jsstring \<Rightarrow> thrown + jsstring" where
  "readFileSync fs p =
     (case files fs p of
        Some text \<Rightarrow> Inr text
      | None \<Rightarrow>
          if p \<in> dirs fs then Inl (JsError (lit ''EISDIR: illegal operation on a directory, read''))
          else Inl (JsError (lit ''ENOENT: no such file or directory, open '' @ [39] @ p @ [39])))"

text \<open>\<open>mkdirSync(dir, {recursive: true})\<close>: every missing ancestor is created; a regular file in the way is an error.\<close>

definition mkdirSync :: "jsstring \<Rightarrow> filesystem \<Rightarrow> thrown + filesystem" where
  "mkdirSync dir fs =
     (if list_ex (\<lambda>a. files fs a \<noteq> None) (ancestors dir)
      then Inl (JsError (lit ''ENOTDIR: not a directory, mkdir '' @ [39] @ dir @ [39]))
      else Inr (fs\<lparr>dirs := dirs fs \<union> set (ancestors dir)\<rparr>))"

definition writeFileSync :: "jsstring \<Rightarrow> jsstring \<Rightarrow> filesystem \<Rightarrow> thrown + filesystem" where
  "writeFileSync p text fs =
     (if p \<in> dirs fs
      then Inl (JsError (lit ''EISDIR: illegal operation on a directory, open '' @ [39] @ p @ [39]))
      else if dirname p \<notin> dirs fs
      then Inl (JsError (lit ''ENOENT: no such file or directory, open '' @ [39] @ p @ [39]))
      else Inr (fs\<lparr>files := (files fs)(p \<mapsto> text)\<rparr>))"

definition resolvePath :: "(jsstring \<Rightarrow> jsstring) \<Rightarrow> jsstring \<Rightarrow> jsstring option \<Rightarrow> thrown + jsstring" where
  "resolvePath resolve p allowedDir =
     (let resolved = resolve p in
      case allowedDir of
        None \<Rightarrow> Inr resolved
      | Some dir \<Rightarrow>
          if dir = [] then Inr resolved
          else
            (let allowed = resolve dir in
             if \<not> startsWith resolved (allowed @ [47]) \<and> resolved \<noteq> allowed
             then Inl (JsError (lit ''Access denied: path '' @ [39] @ p @ [39] @ lit '' is outside workspace''))
             else Inr resolved))"

record write_params =
  wpath :: jsstring
  wcontent :: jsstring

definition write_file_execute ::
  "(jsstring \<Rightarrow> jsstring) \<Rightarrow> jsstring option \<Rightarrow> write_params \<Rightarrow> filesystem \<Rightarrow> jsstring \<times> filesystem" where
  "write_file_execute resolve allowedDir params fs =
     (case resolvePath resolve (wpath params) allowedDir of
        Inl err \<Rightarrow> (lit ''Error: '' @ thrown_message err, fs)
      | Inr resolved \<Rightarrow>
          (case mkdirSync (dirname resolved) fs of
             Inl err \<Rightarrow> (lit ''Error: '' @ thrown_message err, fs)
           | Inr fs1 \<Rightarrow>
               (case writeFileSync resolved (wcontent params) fs1 of
                  Inl err \<Rightarrow> (lit ''Error: '' @ thrown_message err, fs1)
                | Inr fs2 \<Rightarrow>
                    (lit ''Successfully wrote '' @ digits10 (length (wcontent params)) @ lit '' bytes to ''
                       @ wpath params, fs2))))"

record edit_params =
  epath :: jsstring
  old_text :: jsstring
  new_text :: jsstring

definition edit_file_execute ::
  "(jsstring \<Rightarrow> jsstring) \<Rightarrow> jsstring option \<Rightarrow> edit_params \<Rightarrow> filesystem \<Rightarrow> jsstring \<times> filesystem" where
  "edit_file_execute resolve allowedDir params fs =
     (case resolvePath resolve (epath params) allowedDir of
        Inl err \<Rightarrow> (lit ''Error: '' @ thrown_message err, fs)
      | Inr resolved \<Rightarrow>
          if \<not> existsSync fs resolved then (lit ''Error: File not found: '' @ epath params, fs)
          else
            (case readFileSync fs resolved of
               Inl err \<Rightarrow> (lit ''Error: '' @ thrown_message err, fs)
             | Inr text \<Rightarrow>
                 if \<not> includes_str text (old_text params)
                 then (lit ''Error: old_text not found in file. Make sure it matches exactly.'', fs)
                 else
                   (let count = int (length (split_str text (old_text params))) - 1 in
                    if count > 1
                    then (lit ''Warning: old_text appears '' @ num_str count
                            @ lit '' times. Please provide more context to make it unique.'', fs)
                    else
                      (case writeFileSync resolved (replace_str text (old_text params) (new_text params)) fs of
                         Inl err \<Rightarrow> (lit ''Error: '' @ thrown_message err, fs)
                       | Inr fs' \<Rightarrow> (lit ''Successfully edited '' @ epath params, fs')))))"

text \<open>
  The number of occurrences of a text in another: the positions at which it starts.
\<close>

definition occurrences :: "jsstring \<Rightarrow> jsstring \<Rightarrow> nat" where
  "occurrences s p = length (filter (\<lambda>i. startsWith (drop i s) p) [0..<Suc (length s)])"

text \<open>For concrete runs: paths that are absolute and normalised already, and a workspace with one script.\<close>

definition resolve_absolute :: "jsstring \<Rightarrow> jsstring" where
  "resolve_absolute p = p"

definition demo_fs :: "jsstring \<Rightarrow> filesystem" where
  "demo_fs text = \<lparr>files = [lit ''/w/a.sh'' \<mapsto> text], dirs = {lit ''/'', lit ''/w''}\<rparr>"


section \<open>Registry: registration is last-wins\<close>

lemma toolNames_register:
  "distinct (toolNames r) \<Longrightarrow> distinct (toolNames (register t r))"
  by (simp add: toolNames_def register_def distinct_update)

lemma reachable_distinct: "reachable r \<Longrightarrow> distinct (toolNames r)"
proof (induction rule: reachable.induct)
  case reachable_new
  show ?case by (simp add: new_registry_def toolNames_def)
next
  case (reachable_register r t)
  from reachable_register.IH show ?case by (rule toolNames_register)
next
  case (reachable_unregister r n)
  then show ?case by (simp add: toolNames_def unregister_def distinct_delete)
qed

lemma length_alist_update:
  "length (AList.update k v al) = (if k \<in> fst ` set al then length al else Suc (length al))"
  by (induction al) auto

lemma distinct_count_le_1: "distinct xs \<Longrightarrow> count_list xs x \<le> 1"
  by (induction xs) auto

text \<open>
  C10.  \<open>register\<close> is a total function (it cannot fail), and on every registry built
  from the empty one: after \<open>register t\<close>, \<open>get\<close> of the tool's name returns \<open>t\<close> itself
  (last wins), the result is again such a registry, every name occurs at most once among
  its keys, and the size is unchanged when the name was already registered (and grows by
  one otherwise).
\<close>

theorem register_last_wins:
  assumes "reachable r"
  shows "reachable (register t r)
       \<and> get (register t r) (name t) = Some t
       \<and> (\<forall>n. count_list (toolNames (register t r)) n \<le> 1)
       \<and> size_registry (register t r) = (if has r (name t) then size_registry r else Suc (size_registry r))"
proof -
  have d: "distinct (toolNames (register t r))"
    using assms by (intro toolNames_register reachable_distinct)
  have c: "count_list (toolNames (register t r)) n \<le> 1" for n
    using d by (rule distinct_count_le_1)
  have s: "size_registry (register t r) = (if has r (name t) then size_registry r else Suc (size_registry r))"
    by (simp add: size_registry_def register_def has_def length_alist_update map_of_eq_None_iff)
  have g: "get (register t r) (name t) = Some t"
    by (simp add: get_def register_def update_conv')
  from assms have "reachable (register t r)"
    by (rule reachable_register)
  with g c s show ?thesis
    by blast
qed

theorem register_last_wins_witness:
  "reachable (register (echo_tool (lit ''old'')) new_registry)
   \<and> get (register (echo_tool (lit ''new'')) (register (echo_tool (lit ''old'')) new_registry)) (lit ''echo'')
       = Some (echo_tool (lit ''new''))
   \<and> size_registry (register (echo_tool (lit ''new'')) (register (echo_tool (lit ''old'')) new_registry)) = 1"
proof -
  have r: "reachable (register (echo_tool (lit ''old'')) new_registry)"
    by (rule reachable_register [OF reachable_new])
  have n: "name (echo_tool (lit ''new'')) = lit ''echo''"
    by (simp add: echo_tool_def)
  have h: "has (register (echo_tool (lit ''old'')) new_registry) (lit ''echo'')"
    by (simp add: has_def register_def new_registry_def echo_tool_def)
  have s: "size_registry (register (echo_tool (lit ''old'')) new_registry) = 1"
    by (simp add: size_registry_def register_def new_registry_def)
  show ?thesis
    using register_last_wins [OF r, of "echo_tool (lit ''new'')"] r n h s by simp
qed


section \<open>Registry: execute collapses every outcome into a string\<close>

text \<open>
  What \<open>ToolRegistry.execute\<close> returns, outcome by outcome.  It is a total function into
  result strings: no outcome of the lookup, of the validation or of the tool reaches the
  caller as an exception.
\<close>

lemma registry_execute_outcomes:
  "(get r n = None \<longrightarrow>
      registry_execute r n ps w = (lit ''Error: Tool '' @ [39] @ n @ [39] @ lit '' not found.'', w))
   \<and> (get r n = Some t \<and> parameters t ps = Inl (ZodError issues zm) \<longrightarrow>
      registry_execute r n ps w =
        (lit ''Invalid parameters: '' @ join (lit '', '') (map issue_str issues), w))
   \<and> (get r n = Some t \<and> parameters t ps = Inl err \<and> \<not> instanceof_ZodError err \<longrightarrow>
      registry_execute r n ps w =
        (lit ''Error executing '' @ n @ lit '': '' @ thrown_message err, w))
   \<and> (get r n = Some t \<and> parameters t ps = Inr v \<and> execute t v w = (Inl err, w')
        \<and> \<not> instanceof_ZodError err \<longrightarrow>
      registry_execute r n ps w =
        (lit ''Error executing '' @ n @ lit '': '' @ thrown_message err, w'))
   \<and> (get r n = Some t \<and> parameters t ps = Inr v \<and> execute t v w = (Inl (ZodError issues zm), w') \<longrightarrow>
      registry_execute r n ps w =
        (lit ''Invalid parameters: '' @ join (lit '', '') (map issue_str issues), w'))
   \<and> (get r n = Some t \<and> parameters t ps = Inr v \<and> execute t v w = (Inr res, w') \<longrightarrow>
      registry_execute r n ps w = (res, w'))"
  by (cases err) (simp_all add: registry_execute_def execute_catch_def instanceof_ZodError_def)

lemma registry_execute_examples:
  "registry_execute (register boom_tool (register (echo_tool []) new_registry)) (lit ''nope'') (lit ''hi'') ()
     = (lit ''Error: Tool 'nope' not found.'', ())
   \<and> registry_execute (register boom_tool (register (echo_tool []) new_registry)) (lit ''boom'') (lit ''hi'') ()
     = (lit ''Error executing boom: kaput'', ())
   \<and> registry_execute (register boom_tool (register (echo_tool []) new_registry)) (lit ''echo'') (lit ''hi'') ()
     = (lit ''hi'', ())"
  using registry_execute_outcomes
      [where r = "register boom_tool (register (echo_tool []) new_registry)" and n = "lit ''nope''"
         and ps = "lit ''hi''" and w = "()"]
    registry_execute_outcomes
      [where r = "register boom_tool (register (echo_tool []) new_registry)" and n = "lit ''boom''"
         and t = boom_tool and ps = "lit ''hi''" and v = "lit ''hi''" and w = "()" and w' = "()"
         and err = "JsError (lit ''kaput'')"]
    registry_execute_outcomes
      [where r = "register boom_tool (register (echo_tool []) new_registry)" and n = "lit ''echo''"
         and t = "echo_tool []" and ps = "lit ''hi''" and v = "lit ''hi''" and w = "()" and w' = "()"
         and res = "lit ''hi''"]
  by (simp add: register_def new_registry_def get_def echo_tool_def boom_tool_def lit_def thrown_message_def
      instanceof_ZodError_def)

text \<open>
  C1 (the code departs from the claim).  An unknown name, a failed validation and a tool
  that throws an \<open>Error\<close> give the strings the claim says, and nothing is raised.  But the
  one \<open>catch\<close> block tells a validation failure by \<open>err instanceof z.ZodError\<close>: when the
  parameters have passed validation and the tool's own execution throws a \<open>ZodError\<close>, the
  result is \<open>Invalid parameters: ...\<close> and not \<open>Error executing {name}: {message}\<close>, which
  every other throw of a tool gives.
\<close>

theorem registry_execute_zod_thrown_by_tool:
  "parameters zod_tool (lit ''{}'') = Inr (lit ''{}'')
   \<and> execute zod_tool (lit ''{}'') () =
       (Inl (ZodError [\<lparr>path = [Key (lit ''content''), Idx 0], message = lit ''Required''\<rparr>] (lit ''[...]'')), ())
   \<and> registry_execute (register zod_tool new_registry) (lit ''mcp_srv_x'') (lit ''{}'') ()
       = (lit ''Invalid parameters: content.0: Required'', ())
   \<and> \<not> startsWith (fst (registry_execute (register zod_tool new_registry) (lit ''mcp_srv_x'') (lit ''{}'') ()))
         (lit ''Error executing mcp_srv_x: '')
   \<and> registry_execute (register boom_tool new_registry) (lit ''boom'') (lit ''{}'') ()
       = (lit ''Error executing boom: kaput'', ())"
  by (simp add: registry_execute_def execute_catch_def register_def new_registry_def get_def
      zod_tool_def boom_tool_def thrown_message_def lit_def issue_str_def path_elem_str_def
      digits10.simps)


section \<open>The exec tool: output format\<close>

lemmas regexp_eval = lit_def seqs_def chars_def regexp_test_def at_boundary_def is_word_def
  is_space_def is_line_terminator_def canonicalize_def toLowerCase_def lower_unit_def lower1_def

lemma dropWhile_all: "(\<forall>x \<in> set (dropWhile P s). P x) \<longleftrightarrow> (\<forall>x \<in> set s. P x)"
  by (induction s) auto

lemma trim_empty_iff: "trim s = [] \<longleftrightarrow> (\<forall>c \<in> set s. is_space c)"
  by (simp add: trim_def dropWhile_eq_Nil_conv dropWhile_all)

lemma startsWith_append: "startsWith (p @ s) p"
  by (induction p) auto

lemma includes_str_prefix: "startsWith s p \<Longrightarrow> includes_str s p"
  by (cases s; cases p) auto

lemma includes_str_append: "includes_str (a @ p @ b) p"
  by (induction a) (auto simp: includes_str_prefix startsWith_append)

lemma includes_str_hd: "includes_str s p \<Longrightarrow> p \<noteq> [] \<Longrightarrow> hd p \<in> set s"
  by (induction s) (auto simp: neq_Nil_conv)

lemma trim_Nil: "trim [] = []"
  by (simp add: trim_def)

lemma digits10_range: "c \<in> set (digits10 n) \<Longrightarrow> 48 \<le> c \<and> c \<le> 57"
proof (induction n arbitrary: c rule: digits10.induct)
  case (1 n)
  show ?case
  proof (cases "n < 10")
    case True
    with "1.prems" show ?thesis by (simp add: digits10.simps)
  next
    case False
    with "1.prems" have "c \<in> set (digits10 (n div 10)) \<or> c = 48 + n mod 10"
      by (auto simp: digits10.simps [of n])
    then show ?thesis
    proof
      assume "c \<in> set (digits10 (n div 10))"
      with False "1.IH" show ?thesis by blast
    next
      assume "c = 48 + n mod 10"
      moreover have "n mod 10 < 10" by simp
      ultimately show ?thesis by linarith
    qed
  qed
qed

lemma num_str_range: "c \<in> set (num_str i) \<Longrightarrow> c = 45 \<or> (48 \<le> c \<and> c \<le> 57)"
  by (auto simp: num_str_def dest: digits10_range split: if_splits)

lemma no_output_no_marker:
  "\<not> includes_str (lit ''(no output, exit code '' @ num_str i @ lit '')'') (lit ''STDERR:'')"
proof
  assume a: "includes_str (lit ''(no output, exit code '' @ num_str i @ lit '')'') (lit ''STDERR:'')"
  have "lit ''STDERR:'' \<noteq> []" and "hd (lit ''STDERR:'') = 83"
    by (simp_all add: lit_def)
  with includes_str_hd [OF a]
  have "83 \<in> set (lit ''(no output, exit code '' @ num_str i @ lit '')'')"
    by simp
  then have "83 \<in> set (num_str i)"
    by (simp add: lit_def)
  then show False
    by (auto dest: num_str_range)
qed

text \<open>
  C4 (as amended).  For a command that passed the guard and ran: a stream that is blank
  (empty or white space only) is dropped; standard error that is not blank is put after a
  \<open>STDERR:\<close> line, on a new line after standard output when that was kept; when both are
  blank the text is \<open>(no output, exit code N)\<close>.  The line \<open>Exit code: N\<close> is appended only
  when \<open>N\<close> is not zero and the text so far does not contain \<open>STDERR:\<close>, so never when
  standard error was kept.  A text of more than 10000 code units is cut to its first 10000
  followed by a new line and \<open>... (truncated)\<close>.
\<close>

theorem exec_output_format:
  "(trim (stdout pr) \<noteq> [] \<and> trim (stderr pr) \<noteq> [] \<longrightarrow>
      exec_output pr = stdout pr @ [10] @ lit ''STDERR:'' @ [10] @ stderr pr)
   \<and> (trim (stdout pr) = [] \<and> trim (stderr pr) \<noteq> [] \<longrightarrow>
      exec_output pr = lit ''STDERR:'' @ [10] @ stderr pr)
   \<and> (trim (stdout pr) \<noteq> [] \<and> trim (stderr pr) = [] \<longrightarrow>
      exec_output pr =
        (if exitCode pr \<noteq> 0 \<and> \<not> includes_str (stdout pr) (lit ''STDERR:'')
         then stdout pr @ [10] @ lit ''Exit code: '' @ num_str (exitCode pr)
         else stdout pr))
   \<and> (trim (stdout pr) = [] \<and> trim (stderr pr) = [] \<longrightarrow>
      exec_output pr =
        (if exitCode pr \<noteq> 0
         then lit ''(no output, exit code '' @ num_str (exitCode pr) @ lit '')'' @ [10]
              @ lit ''Exit code: '' @ num_str (exitCode pr)
         else lit ''(no output, exit code '' @ num_str (exitCode pr) @ lit '')''))
   \<and> (guardCommand tool (command params) = None
        \<and> sh (command params) (case working_dir params of Some d \<Rightarrow> d | None \<Rightarrow> workingDir tool)
             (timeout tool) = Inr pr \<longrightarrow>
      fst (exec_execute tool sh params) =
        (if length (exec_output pr) > 10000
         then take 10000 (exec_output pr) @ [10] @ lit ''... (truncated)''
         else exec_output pr))"
proof -
  have m: "includes_str (a @ lit ''STDERR:'' @ b) (lit ''STDERR:'')" for a b
    by (rule includes_str_append)
  have m0: "includes_str (lit ''STDERR:'' @ b) (lit ''STDERR:'')" for b
    using includes_str_append [of "[]"] by simp
  have t: "trim (a @ lit ''STDERR:'' @ b) \<noteq> []" for a b
    by (simp add: trim_empty_iff lit_def is_space_def)
  have n: "trim x \<noteq> [] \<Longrightarrow> x \<noteq> []" for x
    using trim_Nil by auto
  have c1: "trim (stdout pr) \<noteq> [] \<and> trim (stderr pr) \<noteq> [] \<longrightarrow>
      exec_output pr = stdout pr @ [10] @ lit ''STDERR:'' @ [10] @ stderr pr"
  proof
    assume a: "trim (stdout pr) \<noteq> [] \<and> trim (stderr pr) \<noteq> []"
    then have "stdout pr \<noteq> []" by (simp add: n)
    with a show "exec_output pr = stdout pr @ [10] @ lit ''STDERR:'' @ [10] @ stderr pr"
      using m [of "stdout pr @ [10]" "10 # stderr pr"] t [of "stdout pr @ [10]" "10 # stderr pr"]
      by (simp add: exec_output_def)
  qed
  have c2: "trim (stdout pr) = [] \<and> trim (stderr pr) \<noteq> [] \<longrightarrow>
      exec_output pr = lit ''STDERR:'' @ [10] @ stderr pr"
    using m0 [of "10 # stderr pr"] t [of "[]" "10 # stderr pr"]
    by (simp add: exec_output_def)
  have c3: "trim (stdout pr) \<noteq> [] \<and> trim (stderr pr) = [] \<longrightarrow>
      exec_output pr =
        (if exitCode pr \<noteq> 0 \<and> \<not> includes_str (stdout pr) (lit ''STDERR:'')
         then stdout pr @ [10] @ lit ''Exit code: '' @ num_str (exitCode pr)
         else stdout pr)"
    by (simp add: exec_output_def)
  have c4: "trim (stdout pr) = [] \<and> trim (stderr pr) = [] \<longrightarrow>
      exec_output pr =
        (if exitCode pr \<noteq> 0
         then lit ''(no output, exit code '' @ num_str (exitCode pr) @ lit '')'' @ [10]
              @ lit ''Exit code: '' @ num_str (exitCode pr)
         else lit ''(no output, exit code '' @ num_str (exitCode pr) @ lit '')'')"
    using no_output_no_marker [of "exitCode pr"]
    by (simp add: exec_output_def trim_Nil)
  have c5: "guardCommand tool (command params) = None
        \<and> sh (command params) (case working_dir params of Some d \<Rightarrow> d | None \<Rightarrow> workingDir tool)
             (timeout tool) = Inr pr \<longrightarrow>
      fst (exec_execute tool sh params) =
        (if length (exec_output pr) > 10000
         then take 10000 (exec_output pr) @ [10] @ lit ''... (truncated)''
         else exec_output pr)"
    by (simp add: exec_execute_def exec_truncate_def Let_def)
  from c1 c2 c3 c4 c5 show ?thesis by blast
qed

theorem exec_output_format_witness:
  "exec_output \<lparr>stdout = lit ''out'', stderr = lit ''err'', exitCode = 1\<rparr>
     = lit ''out'' @ [10] @ lit ''STDERR:'' @ [10] @ lit ''err''
   \<and> exec_output \<lparr>stdout = lit ''x'', stderr = [], exitCode = 2\<rparr>
     = lit ''x'' @ [10] @ lit ''Exit code: 2''"
  using exec_output_format [where pr = "\<lparr>stdout = lit ''out'', stderr = lit ''err'', exitCode = 1\<rparr>"]
    exec_output_format [where pr = "\<lparr>stdout = lit ''x'', stderr = [], exitCode = 2\<rparr>"]
  by (simp add: trim_def is_space_def lit_def num_str_def digits10.simps)

text \<open>
  The claim as stated fails for a failing command that wrote to standard error: the exit
  code is not reported.
\<close>

theorem exec_exit_code_counterexample:
  "exec_execute (new_exec_tool (lit ''/w''))
        (fixed_shell \<lparr>stdout = [], stderr = lit ''ls: nope'', exitCode = 2\<rparr>)
        \<lparr>command = lit ''ls nope'', working_dir = None\<rparr>
      = (lit ''STDERR:'' @ [10] @ lit ''ls: nope'', [(lit ''ls nope'', lit ''/w'')])
   \<and> \<not> includes_str (lit ''STDERR:'' @ [10] @ lit ''ls: nope'') (lit ''Exit code: 2'')"
proof -
  have g: "guardCommand (new_exec_tool (lit ''/w'')) (lit ''ls nope'') = None"
    by (simp add: guardCommand_def new_exec_tool_def DEFAULT_DENY_PATTERNS_def regexp_eval)
  have o: "exec_truncate (exec_output \<lparr>stdout = [], stderr = lit ''ls: nope'', exitCode = 2\<rparr>)
      = lit ''STDERR:'' @ [10] @ lit ''ls: nope''"
    by (simp add: exec_output_def exec_truncate_def trim_def is_space_def lit_def)
  have w: "workingDir (new_exec_tool (lit ''/w'')) = lit ''/w''"
    by (simp add: new_exec_tool_def)
  have e: "exec_execute (new_exec_tool (lit ''/w''))
        (fixed_shell \<lparr>stdout = [], stderr = lit ''ls: nope'', exitCode = 2\<rparr>)
        \<lparr>command = lit ''ls nope'', working_dir = None\<rparr>
      = (lit ''STDERR:'' @ [10] @ lit ''ls: nope'', [(lit ''ls nope'', lit ''/w'')])"
    by (simp add: exec_execute_def g fixed_shell_def o w)
  have n: "\<not> includes_str (lit ''STDERR:'' @ [10] @ lit ''ls: nope'') (lit ''Exit code: 2'')"
    by (simp add: lit_def)
  from e n show ?thesis by blast
qed


section \<open>The exec tool: the safety guard\<close>

lemma toLowerCase_plain: "304 \<notin> set s \<Longrightarrow> toLowerCase s = map lower1 s"
  by (induction s) (auto simp: toLowerCase_def lower_unit_def)

lemma lit_lower: "stable_lit ic l \<Longrightarrow> canonicalize ic c = canonicalize ic l
    \<Longrightarrow> canonicalize ic (lower1 c) = canonicalize ic l"
  by (auto simp: stable_lit_def canonicalize_def lower1_def split: if_splits)

lemma cmatch_lower: "stable_cls ic cl \<Longrightarrow> cmatch ic cl c \<Longrightarrow> cmatch ic cl (lower1 c)"
proof (cases cl)
  case (Ch l)
  then show "stable_cls ic cl \<Longrightarrow> cmatch ic cl c \<Longrightarrow> cmatch ic cl (lower1 c)"
    by (simp add: lit_lower)
next
  case Space
  then show "stable_cls ic cl \<Longrightarrow> cmatch ic cl c \<Longrightarrow> cmatch ic cl (lower1 c)"
    by (auto simp: is_space_def lower1_def)
next
  case AnyChar
  then show "stable_cls ic cl \<Longrightarrow> cmatch ic cl c \<Longrightarrow> cmatch ic cl (lower1 c)"
    by (auto simp: is_line_terminator_def lower1_def split: if_splits)
next
  case (OneOf ls)
  then show "stable_cls ic cl \<Longrightarrow> cmatch ic cl c \<Longrightarrow> cmatch ic cl (lower1 c)"
    by (auto simp: list_all_iff lit_lower)
qed

lemma is_word_lower: "c \<noteq> 0x212A \<Longrightarrow> is_word (lower1 c) = is_word c"
  by (auto simp: is_word_def lower1_def)

lemma at_boundary_lower: "plain_pos st \<Longrightarrow> at_boundary (lower_pos st) = at_boundary st"
  by (cases st) (auto simp: plain_pos_def plain_unit_def at_boundary_def lower_pos_def is_word_lower
      split: option.splits list.splits)

lemma runs_plain:
  "st \<in> set (runs m mx p s) \<Longrightarrow> plain_pos (p, s) \<Longrightarrow> plain_pos st"
  by (induction m mx p s rule: runs.induct) (auto simp: plain_pos_def split: if_splits)

lemma runs_lower:
  assumes "\<And>c. m c \<Longrightarrow> m' (lower1 c)"
  shows "\<exists>more. runs m' mx (map_option lower1 p) (map lower1 s)
               = map lower_pos (runs m mx p s) @ more"
proof (induction s arbitrary: mx p)
  case Nil
  show ?case by (simp add: lower_pos_def)
next
  case (Cons c cs)
  show ?case
  proof (cases "m c \<and> mx \<noteq> Some 0")
    case True
    with assms have "m' (lower1 c)" by simp
    moreover obtain more where
      "runs m' (map_option (\<lambda>n. n - 1) mx) (map_option lower1 (Some c)) (map lower1 cs)
         = map lower_pos (runs m (map_option (\<lambda>n. n - 1) mx) (Some c) cs) @ more"
      using Cons.IH by blast
    ultimately show ?thesis using True by (simp add: lower_pos_def)
  next
    case False
    then show ?thesis by (auto simp: lower_pos_def)
  qed
qed

lemma in_set_drop_append: "x \<in> set (drop n xs) \<Longrightarrow> x \<in> set (drop n (xs @ ys))"
  by auto

lemma ends_plain:
  "st' \<in> set (ends ic r st) \<Longrightarrow> plain_pos st \<Longrightarrow> plain_pos st'"
proof (induction r arbitrary: st st')
  case (Atom cl)
  then show ?case
    by (cases st) (auto simp: plain_pos_def split: list.splits if_splits)
next
  case (Repeat cl mn mx)
  then have "st' \<in> set (runs (cmatch ic cl) mx (fst st) (snd st))"
    by (auto dest: in_set_dropD)
  with Repeat.prems(2) show ?case
    by (auto intro: runs_plain)
qed (auto split: if_splits)

lemma ends_lower:
  "stable ic r \<Longrightarrow> plain_pos st \<Longrightarrow> st' \<in> set (ends ic r st)
     \<Longrightarrow> lower_pos st' \<in> set (ends ic r (lower_pos st))"
proof (induction r arbitrary: st st')
  case Eps
  then show ?case by simp
next
  case (Atom cl)
  then show ?case
    by (cases st) (auto simp: lower_pos_def cmatch_lower split: list.splits if_splits)
next
  case WordBoundary
  then show ?case by (auto simp: at_boundary_lower split: if_splits)
next
  case (Seq a b)
  from Seq.prems(3) obtain mid where m: "mid \<in> set (ends ic a st)" "st' \<in> set (ends ic b mid)"
    by auto
  from Seq.prems have "stable ic a" "stable ic b" by simp_all
  from Seq.IH(1) [OF \<open>stable ic a\<close> Seq.prems(2) m(1)]
  have 1: "lower_pos mid \<in> set (ends ic a (lower_pos st))" .
  from ends_plain [OF m(1) Seq.prems(2)] have "plain_pos mid" .
  from Seq.IH(2) [OF \<open>stable ic b\<close> this m(2)]
  have 2: "lower_pos st' \<in> set (ends ic b (lower_pos mid))" .
  from 1 2 show ?case by auto
next
  case (Alt a b)
  from Alt.prems have sa: "stable ic a" and sb: "stable ic b" by simp_all
  from Alt.prems(3) have "st' \<in> set (ends ic a st) \<or> st' \<in> set (ends ic b st)"
    by simp
  then show ?case
  proof
    assume "st' \<in> set (ends ic a st)"
    from Alt.IH(1) [OF sa Alt.prems(2) this] show ?thesis by simp
  next
    assume "st' \<in> set (ends ic b st)"
    from Alt.IH(2) [OF sb Alt.prems(2) this] show ?thesis by simp
  qed
next
  case (Repeat cl mn mx)
  from Repeat.prems(1) have s: "\<And>c. cmatch ic cl c \<Longrightarrow> cmatch ic cl (lower1 c)"
    by (simp add: cmatch_lower)
  obtain more where r: "runs (cmatch ic cl) mx (map_option lower1 (fst st)) (map lower1 (snd st))
      = map lower_pos (runs (cmatch ic cl) mx (fst st) (snd st)) @ more"
    using runs_lower [of "cmatch ic cl" "cmatch ic cl", OF s] by blast
  from Repeat.prems(3) have "st' \<in> set (drop mn (runs (cmatch ic cl) mx (fst st) (snd st)))"
    by simp
  then have "lower_pos st' \<in> set (drop mn (map lower_pos (runs (cmatch ic cl) mx (fst st) (snd st))))"
    by (simp add: drop_map)
  then have "lower_pos st' \<in> set (drop mn (map lower_pos (runs (cmatch ic cl) mx (fst st) (snd st)) @ more))"
    by (rule in_set_drop_append)
  then show ?case
    by (simp add: r [symmetric] lower_pos_def)
qed

lemma starts_plain: "plain_pos (p, s) \<Longrightarrow> st \<in> set (starts p s) \<Longrightarrow> plain_pos st"
  by (induction p s rule: starts.induct) (auto simp: plain_pos_def)

lemma starts_lower: "starts (map_option lower1 p) (map lower1 s) = map lower_pos (starts p s)"
  by (induction p s rule: starts.induct) (auto simp: lower_pos_def)

lemma regexp_test_lower:
  assumes "stable (ignoreCase re) (body re)" and "list_all plain_unit s" and "regexp_test re s"
  shows "regexp_test re (toLowerCase s)"
proof -
  from assms(3) obtain st where st: "st \<in> set (starts None s)"
      and ne: "ends (ignoreCase re) (body re) st \<noteq> []"
    by (auto simp: regexp_test_def list_ex_iff)
  from ne obtain st' where st': "st' \<in> set (ends (ignoreCase re) (body re) st)"
    by (cases "ends (ignoreCase re) (body re) st") auto
  from assms(2) have "plain_pos (None, s)"
    by (simp add: plain_pos_def)
  then have "plain_pos st"
    using st by (rule starts_plain)
  from ends_lower [OF assms(1) this st']
  have "ends (ignoreCase re) (body re) (lower_pos st) \<noteq> []"
    by auto
  moreover have "lower_pos st \<in> set (starts None (map lower1 s))"
    using st starts_lower [of None s] by simp
  moreover from assms(2) have "toLowerCase s = map lower1 s"
    by (intro toLowerCase_plain) (auto simp: list_all_iff plain_unit_def)
  ultimately show ?thesis
    by (auto simp: regexp_test_def list_ex_iff)
qed

lemma default_patterns_stable:
  "list_all (\<lambda>re. stable (ignoreCase re) (body re)) DEFAULT_DENY_PATTERNS"
  by (simp add: DEFAULT_DENY_PATTERNS_def seqs_def chars_def lit_def stable_lit_def)

lemma guard_pattern:
  assumes "re \<in> set (denyPatterns tool)" and "regexp_test re (toLowerCase cmd)"
  shows "guardCommand tool cmd = Some (lit ''Error: Command blocked by safety guard (dangerous pattern detected)'')"
  using assms by (auto simp: guardCommand_def list_ex_iff)

lemma guard_traversal:
  assumes "restrictToWorkspace tool"
    and "includes_str cmd (lit ''../'') \<or> includes_str cmd (lit ''..'' @ [92])"
  shows "guardCommand tool cmd = Some (lit ''Error: Command blocked by safety guard (dangerous pattern detected)'')
       \<or> guardCommand tool cmd = Some (lit ''Error: Command blocked by safety guard (path traversal detected)'')"
  using assms by (simp add: guardCommand_def)

lemma blocked_prefix:
  "includes_str (lit ''Error: Command blocked by safety guard'' @ rest) (lit ''Error: Command blocked by safety guard'')"
  using includes_str_append [of "[]"] by simp

text \<open>
  C2 (as amended).  With the default patterns, the exec tool returns the \<open>blocked by safety
  guard\<close> error and hands nothing to the shell for every command whose lower-cased form
  matches one of the patterns; this covers every command that itself matches a pattern
  and contains neither U+0130 nor U+212A (so every ASCII command that matches).  When
  the tool is restricted to the workspace, every command containing \<open>../\<close> or two dots and a
  backslash is blocked likewise, before anything is handed to the shell.
\<close>

theorem exec_guard_blocks:
  assumes "denyPatterns tool = DEFAULT_DENY_PATTERNS"
  shows "(re \<in> set DEFAULT_DENY_PATTERNS \<and> regexp_test re (toLowerCase (command params)) \<longrightarrow>
            includes_str (fst (exec_execute tool sh params)) (lit ''Error: Command blocked by safety guard'')
            \<and> snd (exec_execute tool sh params) = [])
       \<and> (re \<in> set DEFAULT_DENY_PATTERNS \<and> regexp_test re (command params)
            \<and> 0x130 \<notin> set (command params) \<and> 0x212A \<notin> set (command params) \<longrightarrow>
            includes_str (fst (exec_execute tool sh params)) (lit ''Error: Command blocked by safety guard'')
            \<and> snd (exec_execute tool sh params) = [])
       \<and> (restrictToWorkspace tool
            \<and> (includes_str (command params) (lit ''../'') \<or> includes_str (command params) (lit ''..'' @ [92])) \<longrightarrow>
            includes_str (fst (exec_execute tool sh params)) (lit ''Error: Command blocked by safety guard'')
            \<and> snd (exec_execute tool sh params) = [])"
proof -
  have d: "includes_str (lit ''Error: Command blocked by safety guard (dangerous pattern detected)'')
      (lit ''Error: Command blocked by safety guard'')"
    using blocked_prefix [of "lit '' (dangerous pattern detected)''"] by (simp add: lit_def)
  have a: "includes_str (fst (exec_execute tool sh params)) (lit ''Error: Command blocked by safety guard'')
            \<and> snd (exec_execute tool sh params) = []"
    if "re \<in> set DEFAULT_DENY_PATTERNS" and "regexp_test re (toLowerCase (command params))"
    using that assms guard_pattern [of re tool "command params"] d
    by (simp add: exec_execute_def)
  have b: "regexp_test re (toLowerCase (command params))"
    if "re \<in> set DEFAULT_DENY_PATTERNS" and "regexp_test re (command params)"
      and "0x130 \<notin> set (command params)" and "0x212A \<notin> set (command params)"
  proof (rule regexp_test_lower)
    from that(1) default_patterns_stable show "stable (ignoreCase re) (body re)"
      by (simp add: list_all_iff)
    from that(3,4) show "list_all plain_unit (command params)"
      by (auto simp: list_all_iff plain_unit_def)
    from that(2) show "regexp_test re (command params)" .
  qed
  have c: "includes_str (fst (exec_execute tool sh params)) (lit ''Error: Command blocked by safety guard'')
            \<and> snd (exec_execute tool sh params) = []"
    if "restrictToWorkspace tool"
      and "includes_str (command params) (lit ''../'') \<or> includes_str (command params) (lit ''..'' @ [92])"
  proof -
    have t: "includes_str (lit ''Error: Command blocked by safety guard (path traversal detected)'')
        (lit ''Error: Command blocked by safety guard'')"
      using blocked_prefix [of "lit '' (path traversal detected)''"] by (simp add: lit_def)
    from guard_traversal [OF that] d t show ?thesis
      by (auto simp: exec_execute_def)
  qed
  from a b c show ?thesis by blast
qed

theorem exec_guard_blocks_witness:
  "includes_str (fst (exec_execute ((new_exec_tool (lit ''/w'')) \<lparr>restrictToWorkspace := True\<rparr>)
      (fixed_shell \<lparr>stdout = lit ''ok'', stderr = [], exitCode = 0\<rparr>)
      \<lparr>command = lit ''sudo rm -rf /'', working_dir = None\<rparr>))
      (lit ''Error: Command blocked by safety guard'')
   \<and> snd (exec_execute ((new_exec_tool (lit ''/w'')) \<lparr>restrictToWorkspace := True\<rparr>)
      (fixed_shell \<lparr>stdout = lit ''ok'', stderr = [], exitCode = 0\<rparr>)
      \<lparr>command = lit ''sudo rm -rf /'', working_dir = None\<rparr>) = []
   \<and> includes_str (fst (exec_execute ((new_exec_tool (lit ''/w'')) \<lparr>restrictToWorkspace := True\<rparr>)
      (fixed_shell \<lparr>stdout = lit ''ok'', stderr = [], exitCode = 0\<rparr>)
      \<lparr>command = lit ''cat ../../etc/passwd'', working_dir = None\<rparr>))
      (lit ''Error: Command blocked by safety guard'')
   \<and> snd (exec_execute ((new_exec_tool (lit ''/w'')) \<lparr>restrictToWorkspace := True\<rparr>)
      (fixed_shell \<lparr>stdout = lit ''ok'', stderr = [], exitCode = 0\<rparr>)
      \<lparr>command = lit ''cat ../../etc/passwd'', working_dir = None\<rparr>) = []"
proof -
  let ?tool = "(new_exec_tool (lit ''/w'')) \<lparr>restrictToWorkspace := True\<rparr>"
  let ?re = "DEFAULT_DENY_PATTERNS ! 0"
  have d: "denyPatterns ?tool = DEFAULT_DENY_PATTERNS"
    by (simp add: new_exec_tool_def)
  have r: "restrictToWorkspace ?tool"
    by simp
  have m: "?re \<in> set DEFAULT_DENY_PATTERNS"
    by (simp add: DEFAULT_DENY_PATTERNS_def)
  have t: "regexp_test ?re (lit ''sudo rm -rf /'')"
    by (simp add: DEFAULT_DENY_PATTERNS_def regexp_eval)
  have p: "0x130 \<notin> set (lit ''sudo rm -rf /'') \<and> 0x212A \<notin> set (lit ''sudo rm -rf /'')"
    by (simp add: lit_def)
  have i: "includes_str (lit ''cat ../../etc/passwd'') (lit ''../'')"
    by (simp add: lit_def)
  show ?thesis
    using exec_guard_blocks [OF d, where re = ?re and sh = "fixed_shell \<lparr>stdout = lit ''ok'', stderr = [], exitCode = 0\<rparr>"
        and params = "\<lparr>command = lit ''sudo rm -rf /'', working_dir = None\<rparr>"]
      exec_guard_blocks [OF d, where re = ?re and sh = "fixed_shell \<lparr>stdout = lit ''ok'', stderr = [], exitCode = 0\<rparr>"
        and params = "\<lparr>command = lit ''cat ../../etc/passwd'', working_dir = None\<rparr>"]
      r m t p i
    by simp
qed

text \<open>
  The claim as stated fails for a command that matches a pattern only before lower-casing:
  the Kelvin sign is not a word character, so \<open>\brm\<close> matches after it, but its lower-case
  form is the letter \<open>k\<close>, and the guard sees \<open>krm -rf /\<close>.  The command reaches the shell.
\<close>

theorem exec_guard_kelvin_counterexample:
  "DEFAULT_DENY_PATTERNS ! 0 \<in> set DEFAULT_DENY_PATTERNS
   \<and> regexp_test (DEFAULT_DENY_PATTERNS ! 0) (0x212A # lit ''rm -rf /'')
   \<and> exec_execute (new_exec_tool (lit ''/w''))
        (fixed_shell \<lparr>stdout = [], stderr = lit ''sh: 1: not found'', exitCode = 127\<rparr>)
        \<lparr>command = 0x212A # lit ''rm -rf /'', working_dir = None\<rparr>
      = (lit ''STDERR:'' @ [10] @ lit ''sh: 1: not found'', [(0x212A # lit ''rm -rf /'', lit ''/w'')])
   \<and> \<not> includes_str (lit ''STDERR:'' @ [10] @ lit ''sh: 1: not found'')
         (lit ''Error: Command blocked by safety guard'')"
proof -
  have g: "guardCommand (new_exec_tool (lit ''/w'')) (0x212A # lit ''rm -rf /'') = None"
    by (simp add: guardCommand_def new_exec_tool_def DEFAULT_DENY_PATTERNS_def regexp_eval)
  have t: "regexp_test (DEFAULT_DENY_PATTERNS ! 0) (0x212A # lit ''rm -rf /'')"
    by (simp add: DEFAULT_DENY_PATTERNS_def regexp_eval)
  have m: "DEFAULT_DENY_PATTERNS ! 0 \<in> set DEFAULT_DENY_PATTERNS"
    by (simp add: DEFAULT_DENY_PATTERNS_def)
  have o: "exec_truncate (exec_output \<lparr>stdout = [], stderr = lit ''sh: 1: not found'', exitCode = 127\<rparr>)
      = lit ''STDERR:'' @ [10] @ lit ''sh: 1: not found''"
    by (simp add: exec_output_def exec_truncate_def trim_def is_space_def lit_def)
  have w: "workingDir (new_exec_tool (lit ''/w'')) = lit ''/w''"
    by (simp add: new_exec_tool_def)
  have e: "exec_execute (new_exec_tool (lit ''/w''))
        (fixed_shell \<lparr>stdout = [], stderr = lit ''sh: 1: not found'', exitCode = 127\<rparr>)
        \<lparr>command = 0x212A # lit ''rm -rf /'', working_dir = None\<rparr>
      = (lit ''STDERR:'' @ [10] @ lit ''sh: 1: not found'', [(0x212A # lit ''rm -rf /'', lit ''/w'')])"
    by (simp add: exec_execute_def g fixed_shell_def o w)
  have n: "\<not> includes_str (lit ''STDERR:'' @ [10] @ lit ''sh: 1: not found'')
         (lit ''Error: Command blocked by safety guard'')"
    by (simp add: lit_def)
  from m t e n show ?thesis by blast
qed


section \<open>Heartbeat: which files are actionable\<close>

lemma startsWith_iff: "startsWith s p \<longleftrightarrow> (\<exists>r. s = p @ r)"
  by (induction s p rule: startsWith.induct) auto

lemma strip_trailing_keeps_prefix:
  assumes "p \<noteq> []" and "\<not> is_space (last p)"
  shows "\<exists>r'. rev (dropWhile is_space (rev (p @ r))) = p @ r'"
proof (cases "\<forall>c \<in> set r. is_space c")
  case True
  from assms have "dropWhile is_space (rev p) = rev p"
    by (cases "rev p") (auto simp: last_rev [symmetric] hd_rev)
  moreover have "dropWhile is_space (rev r @ rev p) = dropWhile is_space (rev p)"
    by (rule dropWhile_append2) (use True in auto)
  ultimately have "dropWhile is_space (rev (p @ r)) = rev p"
    by simp
  then show ?thesis by simp
next
  case False
  then have "dropWhile is_space (rev (p @ r)) = dropWhile is_space (rev r) @ rev p"
    by (auto simp: dropWhile_append1)
  then show ?thesis by simp
qed

lemma strip_trailing_prefix: "\<exists>ws. d = rev (dropWhile is_space (rev d)) @ ws"
proof -
  have "rev d = takeWhile is_space (rev d) @ dropWhile is_space (rev d)"
    by simp
  then have "d = rev (dropWhile is_space (rev d)) @ rev (takeWhile is_space (rev d))"
    by (metis rev_append rev_rev_ident)
  then show ?thesis by blast
qed

lemma startsWith_trim:
  assumes "p \<noteq> []" and "\<not> is_space (last p)"
  shows "startsWith (trim l) p \<longleftrightarrow> startsWith (dropWhile is_space l) p"
proof
  assume "startsWith (trim l) p"
  then obtain r where r: "rev (dropWhile is_space (rev (dropWhile is_space l))) = p @ r"
    by (auto simp: startsWith_iff trim_def)
  obtain ws where "dropWhile is_space l = rev (dropWhile is_space (rev (dropWhile is_space l))) @ ws"
    using strip_trailing_prefix by blast
  with r have "dropWhile is_space l = p @ r @ ws" by simp
  then show "startsWith (dropWhile is_space l) p"
    by (auto simp: startsWith_iff)
next
  assume "startsWith (dropWhile is_space l) p"
  then obtain r where "dropWhile is_space l = p @ r"
    by (auto simp: startsWith_iff)
  with strip_trailing_keeps_prefix [OF assms, of r] show "startsWith (trim l) p"
    by (auto simp: startsWith_iff trim_def)
qed

lemma blank_line_trim: "blank_line l \<longleftrightarrow> trim l = []"
  by (simp add: blank_line_def trim_empty_iff list_all_iff)

lemma header_line_trim: "header_line l \<longleftrightarrow> startsWith (trim l) (lit ''#'')"
  by (simp add: header_line_def startsWith_trim lit_def is_space_def)

lemma comment_line_trim: "comment_line l \<longleftrightarrow> startsWith (trim l) (lit ''<!--'')"
  by (simp add: comment_line_def startsWith_trim lit_def is_space_def)

lemma checkbox_line_trim:
  "checkbox_line l \<longleftrightarrow> startsWith (trim l) (lit ''- [ ]'') \<or> startsWith (trim l) (lit ''- [x]'')"
  by (simp add: checkbox_line_def startsWith_trim lit_def is_space_def)

lemma checkbox_line_actionable:
  assumes "checkbox_line l"
  shows "\<not> blank_line l \<and> \<not> header_line l \<and> \<not> comment_line l"
proof -
  from assms obtain r where "trim l = 45 # r"
    by (cases "trim l") (auto simp: checkbox_line_trim lit_def)
  then show ?thesis
    by (simp add: blank_line_trim header_line_trim comment_line_trim lit_def)
qed

lemma heartbeat_lines_empty_iff:
  "heartbeat_lines_empty ls \<longleftrightarrow> list_all (\<lambda>l. blank_line l \<or> header_line l \<or> comment_line l) ls"
  by (induction ls) (auto simp: Let_def blank_line_trim header_line_trim comment_line_trim)

lemma isHeartbeatEmpty_iff:
  "isHeartbeatEmpty (Some c) \<longleftrightarrow>
     list_all (\<lambda>l. blank_line l \<or> header_line l \<or> comment_line l) (split_unit 10 c)"
  by (cases "c = []") (simp_all add: isHeartbeatEmpty_def heartbeat_lines_empty_iff blank_line_def)

text \<open>
  C8 (as amended).  On a tick of a running service with a handler, HEARTBEAT.md readable:
  the handler is not invoked when every line is blank or, after its leading white space,
  starts with \<open>#\<close> or with \<open><!--\<close>, and no line is a checkbox line; it is invoked (once, with
  the heartbeat prompt) when some line is, after its leading white space, a checkbox line
  (\<open>- [ ]\<close> or \<open>- [x]\<close>), whatever the other lines are, and when some line is neither blank
  nor such a header nor such a comment.
\<close>

theorem heartbeat_tick_actionable:
  assumes "running svc" and "onHeartbeat svc = Some handler"
  shows "(list_all (\<lambda>l. blank_line l \<or> header_line l \<or> comment_line l) (split_unit 10 txt)
            \<and> \<not> list_ex checkbox_line (split_unit 10 txt)
          \<longrightarrow> fst (tick svc (Some (Inr txt))) = [])
       \<and> (list_ex checkbox_line (split_unit 10 txt)
          \<longrightarrow> fst (tick svc (Some (Inr txt))) = [HEARTBEAT_PROMPT])
       \<and> (list_ex (\<lambda>l. \<not> blank_line l \<and> \<not> header_line l \<and> \<not> comment_line l) (split_unit 10 txt)
          \<longrightarrow> fst (tick svc (Some (Inr txt))) = [HEARTBEAT_PROMPT])"
proof -
  have t: "fst (tick svc (Some (Inr txt))) =
      (if isHeartbeatEmpty (Some txt) then [] else [HEARTBEAT_PROMPT])"
    using assms by (simp add: tick_def readHeartbeatFile_def)
  have a: "list_ex (\<lambda>l. \<not> blank_line l \<and> \<not> header_line l \<and> \<not> comment_line l) (split_unit 10 txt)
      \<Longrightarrow> \<not> isHeartbeatEmpty (Some txt)"
    by (auto simp: isHeartbeatEmpty_iff list_all_iff list_ex_iff)
  have b: "list_ex checkbox_line (split_unit 10 txt)
      \<Longrightarrow> list_ex (\<lambda>l. \<not> blank_line l \<and> \<not> header_line l \<and> \<not> comment_line l) (split_unit 10 txt)"
    using checkbox_line_actionable by (auto simp: list_ex_iff)
  from t a b show ?thesis
    by (auto simp: isHeartbeatEmpty_iff)
qed

theorem heartbeat_tick_actionable_witness:
  "fst (tick demo_heartbeat (Some (Inr (lit ''# Tasks'' @ [10, 10])))) = []
   \<and> fst (tick demo_heartbeat (Some (Inr (lit ''# Tasks'' @ 10 # 10 # lit ''  - [ ] X'')))) = [HEARTBEAT_PROMPT]"
proof -
  have r: "running demo_heartbeat"
    by (simp add: demo_heartbeat_def)
  have h: "onHeartbeat demo_heartbeat = Some (\<lambda>prompt. Inr (lit ''HEARTBEAT_OK''))"
    by (simp add: demo_heartbeat_def)
  have e1: "split_unit 10 (lit ''# Tasks'' @ [10, 10]) = [lit ''# Tasks'', [], []]"
    by (simp add: lit_def)
  have e2: "split_unit 10 (lit ''# Tasks'' @ 10 # 10 # lit ''  - [ ] X'') = [lit ''# Tasks'', [], lit ''  - [ ] X'']"
    by (simp add: lit_def)
  have l1: "header_line (lit ''# Tasks'')" "blank_line []" "\<not> checkbox_line (lit ''# Tasks'')"
      "\<not> checkbox_line []" "checkbox_line (lit ''  - [ ] X'')"
    by (simp_all add: header_line_def blank_line_def checkbox_line_def is_space_def lit_def)
  show ?thesis
    using heartbeat_tick_actionable [OF r h, of "lit ''# Tasks'' @ [10, 10]"]
      heartbeat_tick_actionable [OF r h, of "lit ''# Tasks'' @ 10 # 10 # lit ''  - [ ] X''"]
    by (simp add: e1 e2 l1)
qed

text \<open>
  The claim as stated fails for an indented header: the line \<open> # x\<close> is not blank and
  starts neither with \<open>#\<close> nor with \<open><!--\<close>, yet the handler is not invoked, because
  \<open>isHeartbeatEmpty\<close> tests the trimmed line.
\<close>

theorem heartbeat_indented_header_counterexample:
  "split_unit 10 (lit '' # x'') = [lit '' # x'']
   \<and> \<not> list_all is_space (lit '' # x'')
   \<and> \<not> startsWith (lit '' # x'') (lit ''#'')
   \<and> \<not> startsWith (lit '' # x'') (lit ''<!--'')
   \<and> running demo_heartbeat
   \<and> onHeartbeat demo_heartbeat \<noteq> None
   \<and> fst (tick demo_heartbeat (Some (Inr (lit '' # x'')))) = []"
  by (simp add: tick_def readHeartbeatFile_def isHeartbeatEmpty_def demo_heartbeat_def trim_def
      is_space_def lit_def)


section \<open>Cron: the next run of a schedule\<close>




section \<open>Cron: one-shot jobs after their run\<close>

lemma set_insert_sorted: "set (insert_sorted key x xs) = insert x (set xs)"
  by (induction xs) auto

lemma set_sort_jobs: "set (sort_jobs key xs) = set xs"
  by (induction xs) (simp_all add: set_insert_sorted)

lemma listJobs_loaded:
  "store s = Some st \<Longrightarrow> set (fst (listJobs disk True s)) = set (jobs st)"
  by (simp add: listJobs_def loadStore_def Let_def set_sort_jobs)

lemma update_job_frame:
  "store (update_job r f s) = store s
   \<and> heap (update_job r f s) j = (if j = r then f (heap s r) else heap s j)"
  by (simp add: update_job_def)

lemma record_result_frame:
  "store (record_result r startMs t s) = store s
   \<and> job_id (heap (record_result r startMs t s) j) = job_id (heap s j)
   \<and> schedule (heap (record_result r startMs t s) j) = schedule (heap s j)
   \<and> deleteAfterRun (heap (record_result r startMs t s) j) = deleteAfterRun (heap s j)"
  by (cases t) (simp_all add: record_result_def Let_def update_job_frame)

lemma handle_one_shot_delete:
  assumes "kind (schedule (heap s r)) = At" and "deleteAfterRun (heap s r)" and "store s = Some st"
  shows "handle_one_shot parser r s =
     Inr (s\<lparr>store := Some (st\<lparr>jobs := filter (\<lambda>j. job_id (heap s j) \<noteq> job_id (heap s r)) (jobs st)\<rparr>)\<rparr>)"
  using assms by (simp add: handle_one_shot_def)

lemma handle_one_shot_disable:
  assumes "kind (schedule (heap s r)) = At" and "\<not> deleteAfterRun (heap s r)"
  shows "\<exists>s'. handle_one_shot parser r s = Inr s'
            \<and> \<not> enabled (heap s' r) \<and> nextRunAtMs (state (heap s' r)) = None
            \<and> store s' = store s"
  using assms by (simp add: handle_one_shot_def update_job_frame)

lemma executeJob_steps:
  "call_handler onJob r s = (thrown_by_job, s1)
   \<Longrightarrow> executeJob onJob parser r s = handle_one_shot parser r (record_result r (clock s) thrown_by_job s1)"
  by (simp add: executeJob_def)

text \<open>
  C7.  Let a job be executed, and let it be, when its handler has returned, an \<open>at\<close> job
  in a loaded store.  If its \<open>deleteAfterRun\<close> is set, the execution ends with the store
  holding exactly the jobs of other ids, so \<open>listJobs(includeDisabled = true)\<close> returns those
  and not the job; otherwise the execution ends with the job's \<open>enabled\<close> flag false, its
  \<open>state.nextRunAtMs\<close> null and the store as it was.
\<close>

theorem executeJob_one_shot:
  assumes "call_handler onJob r s = (thrown_by_job, s1)"
    and "kind (schedule (heap s1 r)) = At"
    and "store s1 = Some st"
  shows "(deleteAfterRun (heap s1 r) \<longrightarrow>
            (\<exists>s'. executeJob onJob parser r s = Inr s'
               \<and> store s' = Some (st\<lparr>jobs := filter (\<lambda>j. job_id (heap s1 j) \<noteq> job_id (heap s1 r)) (jobs st)\<rparr>)
               \<and> r \<notin> set (fst (listJobs disk True s'))
               \<and> set (fst (listJobs disk True s'))
                   = {j \<in> set (jobs st). job_id (heap s1 j) \<noteq> job_id (heap s1 r)}))
       \<and> (\<not> deleteAfterRun (heap s1 r) \<longrightarrow>
            (\<exists>s'. executeJob onJob parser r s = Inr s'
               \<and> \<not> enabled (heap s' r) \<and> nextRunAtMs (state (heap s' r)) = None
               \<and> store s' = Some st))"
proof -
  let ?s2 = "record_result r (clock s) thrown_by_job s1"
  have e: "executeJob onJob parser r s = handle_one_shot parser r ?s2"
    using assms(1) by (rule executeJob_steps)
  have k: "kind (schedule (heap ?s2 r)) = At"
    using assms(2) by (simp add: record_result_frame)
  have st: "store ?s2 = Some st"
    using assms(3) by (simp add: record_result_frame)
  have d: "deleteAfterRun (heap ?s2 r) = deleteAfterRun (heap s1 r)"
    by (simp add: record_result_frame)
  have i: "job_id (heap ?s2 j) = job_id (heap s1 j)" for j
    by (simp add: record_result_frame)
  show ?thesis
  proof (cases "deleteAfterRun (heap s1 r)")
    case True
    let ?kept = "filter (\<lambda>j. job_id (heap s1 j) \<noteq> job_id (heap s1 r)) (jobs st)"
    let ?s' = "?s2\<lparr>store := Some (st\<lparr>jobs := ?kept\<rparr>)\<rparr>"
    from handle_one_shot_delete [OF k _ st, of parser] True d
    have h: "executeJob onJob parser r s = Inr ?s'"
      by (simp add: e i)
    have l: "set (fst (listJobs disk True ?s')) = set ?kept"
      by (simp add: listJobs_loaded)
    have m: "r \<notin> set ?kept"
      by simp
    have n: "set ?kept = {j \<in> set (jobs st). job_id (heap s1 j) \<noteq> job_id (heap s1 r)}"
      by auto
    have s: "store ?s' = Some (st\<lparr>jobs := ?kept\<rparr>)"
      by simp
    from h s l m n have "\<exists>s'. executeJob onJob parser r s = Inr s'
               \<and> store s' = Some (st\<lparr>jobs := ?kept\<rparr>)
               \<and> r \<notin> set (fst (listJobs disk True s'))
               \<and> set (fst (listJobs disk True s'))
                   = {j \<in> set (jobs st). job_id (heap s1 j) \<noteq> job_id (heap s1 r)}"
      by (intro exI [of _ ?s']) simp
    with True show ?thesis by blast
  next
    case False
    from False d have "\<not> deleteAfterRun (heap ?s2 r)" by simp
    from handle_one_shot_disable [OF k this, of parser] obtain s' where
      "handle_one_shot parser r ?s2 = Inr s'" "\<not> enabled (heap s' r)"
      "nextRunAtMs (state (heap s' r)) = None" "store s' = store ?s2"
      by blast
    with e st have "\<exists>s'. executeJob onJob parser r s = Inr s'
               \<and> \<not> enabled (heap s' r) \<and> nextRunAtMs (state (heap s' r)) = None
               \<and> store s' = Some st"
      by simp
    with False show ?thesis by blast
  qed
qed

theorem executeJob_one_shot_witness:
  "(case executeJob None missing_parser 0 demo_cron of
      Inl err \<Rightarrow> False
    | Inr s' \<Rightarrow> set (fst (listJobs (1, []) True s')) = {2})
   \<and> (case executeJob None missing_parser 2 demo_cron of
      Inl err \<Rightarrow> False
    | Inr s' \<Rightarrow> \<not> enabled (heap s' 2) \<and> nextRunAtMs (state (heap s' 2)) = None
               \<and> store s' = Some \<lparr>version = 1, jobs = [0, 2]\<rparr>)"
proof -
  have c: "call_handler None n demo_cron = (None, demo_cron)" for n
    by (simp add: call_handler_def)
  have st: "store demo_cron = Some \<lparr>version = 1, jobs = [0, 2]\<rparr>"
    by (simp add: demo_cron_def)
  have k: "kind (schedule (heap demo_cron 0)) = At" "kind (schedule (heap demo_cron 2)) = At"
    by (simp_all add: demo_cron_def demo_job_def)
  have d: "deleteAfterRun (heap demo_cron 0)" "\<not> deleteAfterRun (heap demo_cron 2)"
    by (simp_all add: demo_cron_def demo_job_def)
  have f: "{j \<in> set (jobs \<lparr>version = 1, jobs = [0, 2]\<rparr>).
              job_id (heap demo_cron j) \<noteq> job_id (heap demo_cron 0)} = {2}"
    by (auto simp: demo_cron_def demo_job_def lit_def)
  from executeJob_one_shot [OF c k(1) st, of missing_parser "(1, [])"] d(1)
  obtain s0 where "executeJob None missing_parser 0 demo_cron = Inr s0"
    "set (fst (listJobs (1, []) True s0))
       = {j \<in> set (jobs \<lparr>version = 1, jobs = [0, 2]\<rparr>).
            job_id (heap demo_cron j) \<noteq> job_id (heap demo_cron 0)}"
    by blast
  with f have 1: "case executeJob None missing_parser 0 demo_cron of
      Inl err \<Rightarrow> False
    | Inr s' \<Rightarrow> set (fst (listJobs (1, []) True s')) = {2}"
    by simp
  from executeJob_one_shot [OF c k(2) st, of missing_parser] d(2)
  obtain s2 where "executeJob None missing_parser 2 demo_cron = Inr s2"
    "\<not> enabled (heap s2 2)" "nextRunAtMs (state (heap s2 2)) = None"
    "store s2 = Some \<lparr>version = 1, jobs = [0, 2]\<rparr>"
    by blast
  then have 2: "case executeJob None missing_parser 2 demo_cron of
      Inl err \<Rightarrow> False
    | Inr s' \<Rightarrow> \<not> enabled (heap s' 2) \<and> nextRunAtMs (state (heap s' 2)) = None
               \<and> store s' = Some \<lparr>version = 1, jobs = [0, 2]\<rparr>"
    by simp
  from 1 2 show ?thesis by (rule conjI)
qed


section \<open>Sub-agent: the messages of a turn with tool calls\<close>

lemma subagent_tool_calls_appends:
  "\<exists>added. fst (subagent_tool_calls tools tcs messages w) = messages @ added
      \<and> map role added = map (\<lambda>tc. ToolRole) tcs
      \<and> map tool_call_id added = map (\<lambda>tc. Some (call_id tc)) tcs"
proof (induction tcs arbitrary: messages w)
  case Nil
  show ?case by simp
next
  case (Cons tc tcs)
  obtain result w1 where r: "registry_execute tools (call_name tc) (arguments tc) w = (result, w1)"
    by (cases "registry_execute tools (call_name tc) (arguments tc) w")
  let ?m = "\<lparr>role = ToolRole, content = Some result, tool_calls = None,
             tool_call_id = Some (call_id tc), tool_name = Some (call_name tc),
             reasoning_content = None\<rparr>"
  from Cons.IH [of "messages @ [?m]" w1] obtain added where
    a: "fst (subagent_tool_calls tools tcs (messages @ [?m]) w1) = (messages @ [?m]) @ added"
       "map role added = map (\<lambda>tc. ToolRole) tcs"
       "map tool_call_id added = map (\<lambda>tc. Some (call_id tc)) tcs"
    by blast
  have "fst (subagent_tool_calls tools (tc # tcs) messages w) = messages @ (?m # added)"
    using a(1) by (simp add: r)
  moreover have "map role (?m # added) = map (\<lambda>tc. ToolRole) (tc # tcs)"
    using a(2) by simp
  moreover have "map tool_call_id (?m # added) = map (\<lambda>tc. Some (call_id tc)) (tc # tcs)"
    using a(3) by simp
  ultimately show ?case by blast
qed

lemma subagent_tool_calls_roles:
  "\<exists>added. fst (subagent_tool_calls tools tcs messages w) = messages @ added
      \<and> (\<forall>m \<in> set added. role m = ToolRole)"
proof (induction tcs arbitrary: messages w)
  case Nil
  show ?case by simp
next
  case (Cons tc tcs)
  obtain result w1 where r: "registry_execute tools (call_name tc) (arguments tc) w = (result, w1)"
    by (cases "registry_execute tools (call_name tc) (arguments tc) w")
  let ?m = "\<lparr>role = ToolRole, content = Some result, tool_calls = None,
             tool_call_id = Some (call_id tc), tool_name = Some (call_name tc),
             reasoning_content = None\<rparr>"
  from Cons.IH [of "messages @ [?m]" w1] obtain added where
    a: "fst (subagent_tool_calls tools tcs (messages @ [?m]) w1) = (messages @ [?m]) @ added"
       "\<forall>m \<in> set added. role m = ToolRole"
    by blast
  have "fst (subagent_tool_calls tools (tc # tcs) messages w) = messages @ (?m # added)"
    using a(1) by (simp add: r)
  moreover have "\<forall>m \<in> set (?m # added). role m = ToolRole"
    using a(2) by simp
  ultimately show ?case by blast
qed

lemma subagent_loop_appends_no_user:
  "subagent_loop chat tools stringify iteration messages w = (Inr (final, messages'), w')
   \<Longrightarrow> \<exists>added. messages' = messages @ added \<and> (\<forall>m \<in> set added. role m \<noteq> User)"
proof (induction chat tools stringify iteration messages w rule: subagent_loop.induct)
  case (1 chat tools stringify iteration messages w)
  show ?case
  proof (cases "iteration < 15")
    case False
    with "1.prems" show ?thesis
      by (simp add: subagent_loop.simps [of chat tools stringify iteration messages w])
  next
    case lt: True
    obtain res w1 where c: "chat messages w = (res, w1)"
      by (cases "chat messages w")
    show ?thesis
    proof (cases res)
      case (Inl err)
      with "1.prems" lt c show ?thesis
        by (simp add: subagent_loop.simps [of chat tools stringify iteration messages w])
    next
      case (Inr response)
      show ?thesis
      proof (cases "hasToolCalls response")
        case False
        with "1.prems" lt c Inr show ?thesis
          by (simp add: subagent_loop.simps [of chat tools stringify iteration messages w])
      next
        case True
        let ?a = "\<lparr>role = Assistant,
                    content = Some (case resp_content response of None \<Rightarrow> [] | Some c \<Rightarrow> c),
                    tool_calls = Some (toolCallDicts stringify response),
                    tool_call_id = None, tool_name = None, reasoning_content = None\<rparr>"
        obtain ms w2 where t: "subagent_tool_calls tools (toolCalls response) (messages @ [?a]) w1 = (ms, w2)"
          by (cases "subagent_tool_calls tools (toolCalls response) (messages @ [?a]) w1")
        from "1.prems" lt c Inr True t
        have rec: "subagent_loop chat tools stringify (iteration + 1) ms w2 = (Inr (final, messages'), w')"
          by (simp add: subagent_loop.simps [of chat tools stringify iteration messages w])
        from "1.IH" [OF lt c [symmetric] Inr True refl refl t [symmetric] rec]
        obtain added where a: "messages' = ms @ added" "\<forall>m \<in> set added. role m \<noteq> User"
          by blast
        from subagent_tool_calls_roles [of tools "toolCalls response" "messages @ [?a]" w1] t
        obtain tm where b: "ms = (messages @ [?a]) @ tm" "\<forall>m \<in> set tm. role m = ToolRole"
          by auto
        have "messages' = messages @ (?a # tm @ added)"
          using a(1) b(1) by simp
        moreover have "\<forall>m \<in> set (?a # tm @ added). role m \<noteq> User"
          using a(2) b(2) by auto
        ultimately show ?thesis by blast
      qed
    qed
  qed
qed

text \<open>
  C9 (the code departs from the claim).  The sub-agent's loop has the ceiling of 15 and
  appends, on a turn with tool calls, the assistant message and one tool message per call
  with the call's id, but it never appends a user message (lemma
  \<open>subagent_loop_appends_no_user\<close>).  On a turn with one tool call it goes on to the next
  call of the provider with the tool message last: no user message \<open>Reflect on the results
  and decide next steps.\<close> is appended.  The main agent's loop, run on the same provider
  and registry, appends it after the tool message.
\<close>

theorem subagent_no_reflection:
  "runSubagent scripted_provider (register (echo_tool []) new_registry) json_text (lit ''sys'') (lit ''task'') ()
     = ((Done, lit ''done'',
         [plain_message System (lit ''sys''), plain_message User (lit ''task''),
          \<lparr>role = Assistant, content = Some [],
            tool_calls = Some [(lit ''call_1'', lit ''echo'', lit ''hi'')],
            tool_call_id = None, tool_name = None, reasoning_content = None\<rparr>,
          \<lparr>role = ToolRole, content = Some (lit ''hi''), tool_calls = None,
            tool_call_id = Some (lit ''call_1''), tool_name = Some (lit ''echo''),
            reasoning_content = None\<rparr>]), ())
   \<and> runAgentLoop scripted_provider (register (echo_tool []) new_registry) json_text 20 0
        [plain_message System (lit ''sys''), plain_message User (lit ''task'')] [] ()
     = (Inr (Some (lit ''done''), [lit ''echo''],
         [plain_message System (lit ''sys''), plain_message User (lit ''task''),
          \<lparr>role = Assistant, content = None,
            tool_calls = Some [(lit ''call_1'', lit ''echo'', lit ''hi'')],
            tool_call_id = None, tool_name = None, reasoning_content = None\<rparr>,
          \<lparr>role = ToolRole, content = Some (lit ''hi''), tool_calls = None,
            tool_call_id = Some (lit ''call_1''), tool_name = None, reasoning_content = None\<rparr>,
          plain_message User (lit ''Reflect on the results and decide next steps.'')]), ())"
proof -
  have e: "registry_execute (register (echo_tool []) new_registry) (lit ''echo'') (lit ''hi'') ()
      = (lit ''hi'', ())"
    by (simp add: registry_execute_def register_def new_registry_def get_def echo_tool_def)
  have 1: "runSubagent scripted_provider (register (echo_tool []) new_registry) json_text (lit ''sys'') (lit ''task'') ()
     = ((Done, lit ''done'',
         [plain_message System (lit ''sys''), plain_message User (lit ''task''),
          \<lparr>role = Assistant, content = Some [],
            tool_calls = Some [(lit ''call_1'', lit ''echo'', lit ''hi'')],
            tool_call_id = None, tool_name = None, reasoning_content = None\<rparr>,
          \<lparr>role = ToolRole, content = Some (lit ''hi''), tool_calls = None,
            tool_call_id = Some (lit ''call_1''), tool_name = Some (lit ''echo''),
            reasoning_content = None\<rparr>]), ())"
    by (simp add: runSubagent_def subagent_loop.simps scripted_provider_def hasToolCalls_def
        toolCallDicts_def json_text_def e)
  have 2: "runAgentLoop scripted_provider (register (echo_tool []) new_registry) json_text 20 0
        [plain_message System (lit ''sys''), plain_message User (lit ''task'')] [] ()
     = (Inr (Some (lit ''done''), [lit ''echo''],
         [plain_message System (lit ''sys''), plain_message User (lit ''task''),
          \<lparr>role = Assistant, content = None,
            tool_calls = Some [(lit ''call_1'', lit ''echo'', lit ''hi'')],
            tool_call_id = None, tool_name = None, reasoning_content = None\<rparr>,
          \<lparr>role = ToolRole, content = Some (lit ''hi''), tool_calls = None,
            tool_call_id = Some (lit ''call_1''), tool_name = None, reasoning_content = None\<rparr>,
          plain_message User (lit ''Reflect on the results and decide next steps.'')]), ())"
    by (simp add: runAgentLoop.simps scripted_provider_def hasToolCalls_def toolCallDicts_def json_text_def e
        addAssistantMessage_def addToolResult_def)
  from 1 2 show ?thesis by (rule conjI)
qed


section \<open>File system tools: what write_file reports and what edit_file writes\<close>

lemma write_file_message:
  "fst (write_file_execute resolve allowedDir params fs)
     = lit ''Successfully wrote '' @ digits10 (length (wcontent params)) @ lit '' bytes to '' @ wpath params
   \<or> (\<exists>err. fst (write_file_execute resolve allowedDir params fs) = lit ''Error: '' @ thrown_message err)"
  by (auto simp: write_file_execute_def split: sum.splits)

text \<open>
  C5 (the code departs from the claim).  \<open>write_file\<close> creates the missing parent
  directories and writes the file, but the number in its message is \<open>content.length\<close>, the
  number of UTF-16 code units, not the number of bytes written: for the one-letter text
  \<open>U+00E9\<close> it reports \<open>1 bytes\<close> and the file holds two.
\<close>

theorem write_file_reports_code_units:
  "fst (write_file_execute resolve_absolute None
          \<lparr>wpath = lit ''/w/notes/cafe.txt'', wcontent = [0xE9]\<rparr> (demo_fs (lit ''a=1'')))
     = lit ''Successfully wrote 1 bytes to /w/notes/cafe.txt''
   \<and> file_bytes (snd (write_file_execute resolve_absolute None
          \<lparr>wpath = lit ''/w/notes/cafe.txt'', wcontent = [0xE9]\<rparr> (demo_fs (lit ''a=1''))))
        (lit ''/w/notes/cafe.txt'') = Some [0xC3, 0xA9]
   \<and> lit ''/w/notes'' \<notin> dirs (demo_fs (lit ''a=1''))
   \<and> lit ''/w/notes'' \<in> dirs (snd (write_file_execute resolve_absolute None
          \<lparr>wpath = lit ''/w/notes/cafe.txt'', wcontent = [0xE9]\<rparr> (demo_fs (lit ''a=1''))))"
proof -
  have d: "dirname (lit ''/w/notes/cafe.txt'') = lit ''/w/notes''"
    by (simp add: dirname_def path_parts_def path_of_parts_def lit_def)
  have a: "ancestors (lit ''/w/notes'') = [lit ''/'', lit ''/w'', lit ''/w/notes'']"
    by (simp add: ancestors_def path_parts_def path_of_parts_def lit_def upt_rec)
  have m: "mkdirSync (lit ''/w/notes'') (demo_fs (lit ''a=1''))
      = Inr \<lparr>files = [lit ''/w/a.sh'' \<mapsto> lit ''a=1''], dirs = {lit ''/'', lit ''/w'', lit ''/w/notes''}\<rparr>"
    by (simp add: mkdirSync_def a demo_fs_def) (auto simp: lit_def)
  have w: "writeFileSync (lit ''/w/notes/cafe.txt'') [0xE9]
        \<lparr>files = [lit ''/w/a.sh'' \<mapsto> lit ''a=1''], dirs = {lit ''/'', lit ''/w'', lit ''/w/notes''}\<rparr>
      = Inr \<lparr>files = [lit ''/w/a.sh'' \<mapsto> lit ''a=1'', lit ''/w/notes/cafe.txt'' \<mapsto> [0xE9]],
             dirs = {lit ''/'', lit ''/w'', lit ''/w/notes''}\<rparr>"
    by (simp add: writeFileSync_def d) (simp add: lit_def)
  have e: "write_file_execute resolve_absolute None
          \<lparr>wpath = lit ''/w/notes/cafe.txt'', wcontent = [0xE9]\<rparr> (demo_fs (lit ''a=1''))
      = (lit ''Successfully wrote '' @ digits10 1 @ lit '' bytes to '' @ lit ''/w/notes/cafe.txt'',
         \<lparr>files = [lit ''/w/a.sh'' \<mapsto> lit ''a=1'', lit ''/w/notes/cafe.txt'' \<mapsto> [0xE9]],
             dirs = {lit ''/'', lit ''/w'', lit ''/w/notes''}\<rparr>)"
    by (simp add: write_file_execute_def resolvePath_def resolve_absolute_def d m w)
  have 1: "fst (write_file_execute resolve_absolute None
          \<lparr>wpath = lit ''/w/notes/cafe.txt'', wcontent = [0xE9]\<rparr> (demo_fs (lit ''a=1'')))
     = lit ''Successfully wrote 1 bytes to /w/notes/cafe.txt''"
    by (simp add: e) (simp add: lit_def digits10.simps)
  have 2: "file_bytes (snd (write_file_execute resolve_absolute None
          \<lparr>wpath = lit ''/w/notes/cafe.txt'', wcontent = [0xE9]\<rparr> (demo_fs (lit ''a=1''))))
        (lit ''/w/notes/cafe.txt'') = Some [0xC3, 0xA9]"
    by (simp add: e file_bytes_def)
  have 3: "lit ''/w/notes'' \<notin> dirs (demo_fs (lit ''a=1''))"
    by (simp add: demo_fs_def lit_def)
  have 4: "lit ''/w/notes'' \<in> dirs (snd (write_file_execute resolve_absolute None
          \<lparr>wpath = lit ''/w/notes/cafe.txt'', wcontent = [0xE9]\<rparr> (demo_fs (lit ''a=1''))))"
    by (simp add: e)
  from 1 2 3 4 show ?thesis by (intro conjI)
qed

lemma edit_file_unchanged_unless_success:
  "snd (edit_file_execute resolve allowedDir params fs) = fs
   \<or> fst (edit_file_execute resolve allowedDir params fs) = lit ''Successfully edited '' @ epath params"
  by (auto simp: edit_file_execute_def Let_def split: sum.splits)

lemma edit_file_not_found:
  assumes "resolvePath resolve (epath params) allowedDir = Inr resolved"
    and "files fs resolved = Some text" and "\<not> includes_str text (old_text params)"
  shows "edit_file_execute resolve allowedDir params fs
     = (lit ''Error: old_text not found in file. Make sure it matches exactly.'', fs)"
  using assms by (simp add: edit_file_execute_def existsSync_def readFileSync_def)

lemma edit_file_multiple:
  assumes "resolvePath resolve (epath params) allowedDir = Inr resolved"
    and "files fs resolved = Some text" and "includes_str text (old_text params)"
    and "int (length (split_str text (old_text params))) - 1 > 1"
  shows "edit_file_execute resolve allowedDir params fs
     = (lit ''Warning: old_text appears '' @ num_str (int (length (split_str text (old_text params))) - 1)
          @ lit '' times. Please provide more context to make it unique.'', fs)"
  using assms by (simp add: edit_file_execute_def existsSync_def readFileSync_def)

text \<open>
  C3 (the code departs from the claim).  A text that does not occur leaves the file as it
  is, and so does one that \<open>split\<close> finds more than once.  But the single occurrence is
  replaced through \<open>String.prototype.replace\<close>, which expands \<open>$$\<close>, \<open>$&\<close> and the like in
  \<open>new_text\<close>: with \<open>a=1\<close> in the file, replacing \<open>1\<close> by \<open>$$\<close> writes \<open>a=$\<close>.  And \<open>split\<close>
  counts occurrences that do not overlap: \<open>aa\<close> starts at two positions of \<open>aaa\<close>, is counted
  once and is replaced.
\<close>

theorem edit_file_replacement_patterns:
  "occurrences (lit ''a=1'') (lit ''1'') = 1
   \<and> edit_file_execute resolve_absolute None
        \<lparr>epath = lit ''/w/a.sh'', old_text = lit ''1'', new_text = lit ''$$''\<rparr> (demo_fs (lit ''a=1''))
      = (lit ''Successfully edited /w/a.sh'', demo_fs (lit ''a=$''))
   \<and> lit ''a=$'' \<noteq> lit ''a='' @ lit ''$$''
   \<and> occurrences (lit ''aaa'') (lit ''aa'') = 2
   \<and> edit_file_execute resolve_absolute None
        \<lparr>epath = lit ''/w/a.sh'', old_text = lit ''aa'', new_text = lit ''b''\<rparr> (demo_fs (lit ''aaa''))
      = (lit ''Successfully edited /w/a.sh'', demo_fs (lit ''ba''))"
proof -
  have d: "dirname (lit ''/w/a.sh'') = lit ''/w''"
    by (simp add: dirname_def path_parts_def path_of_parts_def lit_def)
  have w: "writeFileSync (lit ''/w/a.sh'') new (demo_fs old) = Inr (demo_fs new)" for new old
    by (simp add: writeFileSync_def d demo_fs_def) (simp add: lit_def)
  have r: "readFileSync (demo_fs old) (lit ''/w/a.sh'') = Inr old" "existsSync (demo_fs old) (lit ''/w/a.sh'')" for old
    by (simp_all add: readFileSync_def existsSync_def demo_fs_def)
  have 1: "occurrences (lit ''a=1'') (lit ''1'') = 1"
    by (simp add: occurrences_def lit_def upt_rec)
  have s1: "includes_str (lit ''a=1'') (lit ''1'')" "split_str (lit ''a=1'') (lit ''1'') = [lit ''a='', []]"
      "replace_str (lit ''a=1'') (lit ''1'') (lit ''$$'') = lit ''a=$''"
    by (simp_all add: split_str_def replace_str_def lit_def)
  have 2: "edit_file_execute resolve_absolute None
        \<lparr>epath = lit ''/w/a.sh'', old_text = lit ''1'', new_text = lit ''$$''\<rparr> (demo_fs (lit ''a=1''))
      = (lit ''Successfully edited /w/a.sh'', demo_fs (lit ''a=$''))"
    by (simp add: edit_file_execute_def resolvePath_def resolve_absolute_def r s1 w) (simp add: lit_def)
  have n: "lit ''a=$'' \<noteq> lit ''a='' @ lit ''$$''"
    by (simp add: lit_def)
  have 3: "occurrences (lit ''aaa'') (lit ''aa'') = 2"
    by (simp add: occurrences_def lit_def upt_rec)
  have s2: "includes_str (lit ''aaa'') (lit ''aa'')" "split_str (lit ''aaa'') (lit ''aa'') = [[], lit ''a'']"
      "replace_str (lit ''aaa'') (lit ''aa'') (lit ''b'') = lit ''ba''"
    by (simp_all add: split_str_def replace_str_def lit_def)
  have 4: "edit_file_execute resolve_absolute None
        \<lparr>epath = lit ''/w/a.sh'', old_text = lit ''aa'', new_text = lit ''b''\<rparr> (demo_fs (lit ''aaa''))
      = (lit ''Successfully edited /w/a.sh'', demo_fs (lit ''ba''))"
    by (simp add: edit_file_execute_def resolvePath_def resolve_absolute_def r s2 w) (simp add: lit_def)
  from 1 2 n 3 4 show ?thesis by (intro conjI)
qed

end
